theory Spec2Isabelle
  imports Complex_Main "HOL-Library.Sublist"
begin

section \<open>Python values, exceptions and strings\<close>

text \<open>
  Every \<^verbatim>\<open>raise\<close> of \<^verbatim>\<open>load_confounds/parser.py\<close> and every exception the
  interpreter itself raises on the modelled paths is a constructor of \<open>error\<close>; a
  function that can raise returns \<open>error + 'a\<close> with \<open>Inl\<close> for the exception.
  The four \<^verbatim>\<open>ValueError\<close>s of the module are told apart by their raise site:
  \<^item> \<open>MissingParameter par\<close>: \<^verbatim>\<open>_check_params\<close>;
  \<^item> \<open>NoMatchingConfound key\<close>: \<^verbatim>\<open>_find_confounds\<close>;
  \<^item> \<open>ComponentCountExceeded n_components n_available\<close>: \<^verbatim>\<open>_pca_motion\<close>;
  \<^item> \<open>UnsupportedConfound conf\<close> and \<open>StrategyNotAList\<close>: \<^verbatim>\<open>_sanitize_strategy\<close>.
  \<open>LibraryError\<close> stands for an exception raised inside an external library
  (scikit-learn, file reading).
\<close>

datatype error =
    MissingParameter string
  | NoMatchingConfound string
  | ComponentCountExceeded int int
  | UnsupportedConfound string
  | StrategyNotAList
  | NameError string
  | UnboundLocalError string
  | IndexError
  | KeyError string
  | TypeError
  | LibraryError string

definition and_then :: "error + 'a \<Rightarrow> ('a \<Rightarrow> error + 'b) \<Rightarrow> error + 'b" where
  "and_then m f = (case m of Inl e \<Rightarrow> Inl e | Inr x \<Rightarrow> f x)"

text \<open>\<^verbatim>\<open>str(n)\<close> for a non-negative integer: its decimal digits.\<close>

definition digit :: "nat \<Rightarrow> char" where
  "digit d = (''0123456789'' ! d)"

function str_nat :: "nat \<Rightarrow> string" where
  "str_nat n = (if n < 10 then [digit n] else str_nat (n div 10) @ [digit (n mod 10)])"
  by pat_completeness auto
termination
  by (relation "measure id") auto

declare str_nat.simps [simp del]


text \<open>\<^verbatim>\<open>s.zfill(2)\<close> on a string of digits: pad with zeros on the left to width 2.\<close>

definition zfill2 :: "string \<Rightarrow> string" where
  "zfill2 s = replicate (2 - length s) CHR ''0'' @ s"


section \<open>The sidecar metadata (the parsed JSON file)\<close>

text \<open>
  A JSON object is kept as the list of its items, in file order; its keys are distinct
  (\<^verbatim>\<open>json.load\<close> builds a \<^verbatim>\<open>dict\<close>), so \<open>map_of\<close> is the lookup.
\<close>

datatype json =
    JNull
  | JBool bool
  | JNum real
  | JStr string
  | JArr "json list"
  | JObj "(string \<times> json) list"

type_synonym sidecar = "(string \<times> json) list"

text \<open>
  The \<^verbatim>\<open>compcor_mask\<close> argument of \<^verbatim>\<open>_label_compcor\<close>: \<^verbatim>\<open>_load_acompcor\<close>
  passes a string, \<^verbatim>\<open>_load_compcor\<close> passes the boolean \<^verbatim>\<open>acompcor_combined\<close>.
\<close>

datatype mask_arg = MaskStr string | MaskBool bool

text \<open>Python's \<^verbatim>\<open>==\<close> between a parsed JSON value and such an argument.\<close>

fun py_eq :: "json \<Rightarrow> mask_arg \<Rightarrow> bool" where
  "py_eq (JStr s) (MaskStr t) = (s = t)"
| "py_eq (JBool b) (MaskBool c) = (b = c)"
| "py_eq (JNum x) (MaskBool c) = (x = (if c then 1 else 0))"
| "py_eq _ _ = False"

text \<open>\<^verbatim>\<open>confounds_json[compcor_col]["Mask"]\<close>.\<close>

definition mask_of :: "sidecar \<Rightarrow> string \<Rightarrow> error + json" where
  "mask_of confounds_json compcor_col =
     (case map_of confounds_json compcor_col of
        None \<Rightarrow> Inl (KeyError compcor_col)
      | Some (JObj attrs) \<Rightarrow>
          (case map_of attrs ''Mask'' of
             None \<Rightarrow> Inl (KeyError ''Mask'')
           | Some m \<Rightarrow> Inr m)
      | Some _ \<Rightarrow> Inl TypeError)"

section \<open>Compcor column selection\<close>

text \<open>\<^verbatim>\<open>n_compcor\<close>: the string \<^verbatim>\<open>"auto"\<close> or an integer.\<close>

datatype n_compcor = Auto | Count int

text \<open>
  \<^verbatim>\<open>_select_compcor\<close>. The slice on the truncating branch reads the name
  \<^verbatim>\<open>compcor_col\<close>, which is bound neither in the function nor in the module (the
  parameter is \<^verbatim>\<open>compcor_cols\<close>): Python raises \<^verbatim>\<open>NameError\<close> there.
\<close>

definition select_compcor :: "string list \<Rightarrow> n_compcor \<Rightarrow> mask_arg \<Rightarrow> error + string list" where
  "select_compcor compcor_cols n_compcor compcor_mask =
     (case n_compcor of
        Auto \<Rightarrow> Inr compcor_cols
      | Count n \<Rightarrow>
          if n < int (length compcor_cols) then Inl (NameError ''compcor_col'')
          else Inr compcor_cols)"

text \<open>\<^verbatim>\<open>f"{prefix}_comp_cor_{nn_str}"\<close> with \<^verbatim>\<open>nn_str = str(nn).zfill(2)\<close>.\<close>

definition compcor_name :: "string \<Rightarrow> nat \<Rightarrow> string" where
  "compcor_name pfx nn = pfx @ ''_comp_cor_'' @ zfill2 (str_nat nn)"

text \<open>The loop of \<^verbatim>\<open>_label_compcor\<close> over \<^verbatim>\<open>range(len(all_compcor))\<close>.\<close>

fun label_loop :: "sidecar \<Rightarrow> string \<Rightarrow> mask_arg \<Rightarrow> nat list \<Rightarrow> string list \<Rightarrow> error + string list" where
  "label_loop confounds_json pfx compcor_mask [] compcor_cols = Inr compcor_cols"
| "label_loop confounds_json pfx compcor_mask (nn # rest) compcor_cols =
     (let compcor_col = compcor_name pfx nn in
      if pfx = ''t'' then
        label_loop confounds_json pfx compcor_mask rest (compcor_cols @ [compcor_col])
      else if pfx = ''a'' then
        and_then (mask_of confounds_json compcor_col) (\<lambda>m.
          if py_eq m compcor_mask
          then label_loop confounds_json pfx compcor_mask rest (compcor_cols @ [compcor_col])
          else label_loop confounds_json pfx compcor_mask rest compcor_cols)
      else label_loop confounds_json pfx compcor_mask rest compcor_cols)"

definition label_compcor :: "sidecar \<Rightarrow> string \<Rightarrow> n_compcor \<Rightarrow> mask_arg \<Rightarrow> error + string list" where
  "label_compcor confounds_json pfx n_compcor compcor_mask =
     (let all_compcor = filter (\<lambda>comp. sublist (pfx @ ''_comp_cor'') comp) (map fst confounds_json)
      in and_then (label_loop confounds_json pfx compcor_mask [0..<length all_compcor] [])
           (\<lambda>compcor_cols. select_compcor compcor_cols n_compcor compcor_mask))"

definition load_acompcor :: "sidecar \<Rightarrow> n_compcor \<Rightarrow> bool \<Rightarrow> error + string list" where
  "load_acompcor confounds_json n_compcor acompcor_combined =
     (if acompcor_combined then label_compcor confounds_json ''a'' n_compcor (MaskStr ''combined'')
      else
        and_then (label_compcor confounds_json ''a'' n_compcor (MaskStr ''WM'')) (\<lambda>compcor_cols.
        and_then (label_compcor confounds_json ''a'' n_compcor (MaskStr ''CSF'')) (\<lambda>csf.
          Inr (compcor_cols @ csf))))"

section \<open>Tables\<close>

text \<open>
  A table cell is a number or the missing value; comparisons of floating-point numbers
  are exact, so the numbers are taken as reals. A \<^verbatim>\<open>DataFrame\<close> is the length of
  its row index (every index here is a \<^verbatim>\<open>RangeIndex\<close> from 0) and its columns in
  order, as \<^verbatim>\<open>DataFrame.items()\<close> lists them: (label, column) pairs. A two-dimensional
  \<^verbatim>\<open>ndarray\<close> is its first dimension and its columns.
\<close>

datatype cell = NaN | Num real

record dataframe =
  n_index :: nat
  items :: "(string \<times> cell list) list"

record ndarray =
  shape0 :: nat
  cols :: "cell list list"

text \<open>\<^verbatim>\<open>df.columns\<close> and \<^verbatim>\<open>df.values\<close>.\<close>

definition columns :: "dataframe \<Rightarrow> string list" where
  "columns df = map fst (items df)"

definition to_values :: "dataframe \<Rightarrow> ndarray" where
  "to_values df = \<lparr>shape0 = n_index df, cols = map snd (items df)\<rparr>"

text \<open>\<^verbatim>\<open>pd.DataFrame()\<close>.\<close>

definition empty_frame :: dataframe where
  "empty_frame = \<lparr>n_index = 0, items = []\<rparr>"

text \<open>
  \<^verbatim>\<open>pd.concat([a, b], axis=1)\<close>: the columns of \<open>a\<close> then those of \<open>b\<close>, over the union
  of the two row indexes, a shorter column filled with the missing value.
\<close>

definition pad :: "nat \<Rightarrow> cell list \<Rightarrow> cell list" where
  "pad n c = c @ replicate (n - length c) NaN"

definition pd_concat :: "dataframe \<Rightarrow> dataframe \<Rightarrow> dataframe" where
  "pd_concat a b =
     (let n = max (n_index a) (n_index b)
      in \<lparr>n_index = n, items = map (\<lambda>it. (fst it, pad n (snd it))) (items a @ items b)\<rparr>)"

text \<open>
  \<^verbatim>\<open>df[names]\<close> with a list of labels, and \<^verbatim>\<open>df[name]\<close> with one label; a
  label that is not a column raises \<^verbatim>\<open>KeyError\<close>. The labels of a table read by
  \<^verbatim>\<open>read_csv\<close> are distinct, so one label stands for one column.
\<close>

definition getitem_cols :: "dataframe \<Rightarrow> string list \<Rightarrow> error + dataframe" where
  "getitem_cols df names =
     (case filter (\<lambda>n. n \<notin> set (columns df)) names of
        [] \<Rightarrow> Inr \<lparr>n_index = n_index df,
                   items = concat (map (\<lambda>n. filter (\<lambda>it. fst it = n) (items df)) names)\<rparr>
      | n # _ \<Rightarrow> Inl (KeyError n))"

definition getitem_col :: "dataframe \<Rightarrow> string \<Rightarrow> error + cell list" where
  "getitem_col df name =
     (case map_of (items df) name of
        None \<Rightarrow> Inl (KeyError name)
      | Some c \<Rightarrow> Inr c)"

text \<open>\<^verbatim>\<open>df.dropna()\<close>: the rows without a missing value.\<close>

definition dropna :: "dataframe \<Rightarrow> dataframe" where
  "dropna df =
     (let keep = filter (\<lambda>i. list_all (\<lambda>it. snd it ! i \<noteq> NaN) (items df)) [0..<n_index df]
      in \<lparr>n_index = length keep,
          items = map (\<lambda>it. (fst it, map (\<lambda>i. snd it ! i) keep)) (items df)\<rparr>)"

section \<open>What the module takes from outside\<close>

text \<open>
  The module calls scikit-learn for standardisation and principal components, and reads
  the table and its sidecar from files; a run also fixes the order in which Python
  iterates the set literal \<^verbatim>\<open>{"derivative1", "power2", "derivative1_power2"}\<close>
  (string hashing is seeded per process). These are parameters of the model:
  \<^item> \<open>set_iter\<close>: that iteration order;
  \<^item> \<open>read_confounds\<close>: \<^verbatim>\<open>_confounds_to_df\<close>, the table and the sidecar of an input;
  \<^item> \<open>sk_scale with_mean with_std X\<close>: \<^verbatim>\<open>sklearn.preprocessing.scale(X, axis=0, ...)\<close>;
  \<^item> \<open>sk_pca n X\<close>: \<^verbatim>\<open>PCA(n_components=n).fit_transform(X)\<close>.
\<close>

datatype source = Path string | Table dataframe

record env =
  set_iter :: "string list"
  read_confounds :: "source \<Rightarrow> error + (dataframe \<times> sidecar)"
  sk_scale :: "bool \<Rightarrow> bool \<Rightarrow> ndarray \<Rightarrow> error + ndarray"
  sk_pca :: "int \<Rightarrow> ndarray \<Rightarrow> error + ndarray"

section \<open>Parameter expansion and column resolution\<close>

text \<open>
  \<^verbatim>\<open>_add_suffix\<close>: the dictionary \<^verbatim>\<open>suffix\<close>, then the two nested loops;
  \<^verbatim>\<open>suffix[model]\<close> is read inside the outer loop, so an unknown model raises
  \<^verbatim>\<open>KeyError\<close> only when there is a parameter to expand.
\<close>

definition suffix_of :: "env \<Rightarrow> string \<Rightarrow> error + string list" where
  "suffix_of E model =
     (if model = ''basic'' then Inr []
      else if model = ''derivatives'' then Inr [''derivative1'']
      else if model = ''power2'' then Inr [''power2'']
      else if model = ''full'' then Inr (set_iter E)
      else Inl (KeyError model))"

definition add_suffix :: "env \<Rightarrow> string list \<Rightarrow> string \<Rightarrow> error + string list" where
  "add_suffix E params model =
     (if params = [] then Inr params
      else and_then (suffix_of E model) (\<lambda>suffs.
             Inr (params @ concat (map (\<lambda>par. map (\<lambda>suff. par @ ''_'' @ suff) suffs) params))))"

text \<open>\<^verbatim>\<open>_check_params\<close>.\<close>

fun check_params :: "dataframe \<Rightarrow> string list \<Rightarrow> error + unit" where
  "check_params confounds_raw [] = Inr ()"
| "check_params confounds_raw (par # params) =
     (if par \<notin> set (columns confounds_raw) then Inl (MissingParameter par)
      else check_params confounds_raw params)"

text \<open>
  \<^verbatim>\<open>_find_confounds\<close>: the inner loop over the columns carries the list and the flag
  \<^verbatim>\<open>key_found\<close>; the outer loop runs over the keywords.
\<close>

fun scan_columns :: "string \<Rightarrow> string list \<Rightarrow> string list \<times> bool \<Rightarrow> string list \<times> bool" where
  "scan_columns key [] (list_confounds, key_found) = (list_confounds, key_found)"
| "scan_columns key (col # rest) (list_confounds, key_found) =
     (if sublist key col then scan_columns key rest (list_confounds @ [col], True)
      else scan_columns key rest (list_confounds, key_found))"

fun find_loop :: "dataframe \<Rightarrow> string list \<Rightarrow> string list \<Rightarrow> error + string list" where
  "find_loop confounds_raw [] list_confounds = Inr list_confounds"
| "find_loop confounds_raw (key # keywords) list_confounds =
     (case scan_columns key (columns confounds_raw) (list_confounds, False) of
        (list_confounds', key_found) \<Rightarrow>
          if \<not> key_found then Inl (NoMatchingConfound key)
          else find_loop confounds_raw keywords list_confounds')"

definition find_confounds :: "dataframe \<Rightarrow> string list \<Rightarrow> error + string list" where
  "find_confounds confounds_raw keywords = find_loop confounds_raw keywords []"

section \<open>Category loaders\<close>

definition load_global :: "env \<Rightarrow> dataframe \<Rightarrow> string \<Rightarrow> error + dataframe" where
  "load_global E confounds_raw global_signal =
     and_then (add_suffix E [''global_signal''] global_signal) (\<lambda>global_params.
     and_then (check_params confounds_raw global_params) (\<lambda>_.
       getitem_cols confounds_raw global_params))"

definition load_wm_csf :: "env \<Rightarrow> dataframe \<Rightarrow> string \<Rightarrow> error + dataframe" where
  "load_wm_csf E confounds_raw wm_csf =
     and_then (add_suffix E [''csf'', ''white_matter''] wm_csf) (\<lambda>wm_csf_params.
     and_then (check_params confounds_raw wm_csf_params) (\<lambda>_.
       getitem_cols confounds_raw wm_csf_params))"

definition load_high_pass :: "dataframe \<Rightarrow> error + dataframe" where
  "load_high_pass confounds_raw =
     and_then (find_confounds confounds_raw [''cosine'']) (\<lambda>high_pass_params.
       getitem_cols confounds_raw high_pass_params)"

definition load_ica_aroma :: "dataframe \<Rightarrow> error + dataframe" where
  "load_ica_aroma confounds_raw =
     and_then (find_confounds confounds_raw [''aroma'']) (\<lambda>ica_aroma_params.
       getitem_cols confounds_raw ica_aroma_params)"

text \<open>
  \<^verbatim>\<open>_load_compcor\<close>: three separate \<^verbatim>\<open>if\<close>s bind \<^verbatim>\<open>compcor_cols\<close>; when none
  applies the name is unbound at the call of \<^verbatim>\<open>_check_params\<close>.
\<close>

definition load_compcor ::
  "dataframe \<Rightarrow> sidecar \<Rightarrow> string \<Rightarrow> n_compcor \<Rightarrow> bool \<Rightarrow> error + dataframe" where
  "load_compcor confounds_raw confounds_json compcor n_compcor acompcor_combined =
     and_then
       (if compcor = ''anat''
        then and_then (load_acompcor confounds_json n_compcor acompcor_combined) (\<lambda>c. Inr (Some c))
        else Inr None) (\<lambda>cols1.
     and_then
       (if compcor = ''temp''
        then and_then (label_compcor confounds_json ''t'' n_compcor (MaskBool acompcor_combined))
               (\<lambda>c. Inr (Some c))
        else Inr cols1) (\<lambda>cols2.
     and_then
       (if compcor = ''full''
        then and_then (label_compcor confounds_json ''a'' n_compcor (MaskBool acompcor_combined)) (\<lambda>c.
             and_then (label_compcor confounds_json ''t'' n_compcor (MaskBool acompcor_combined)) (\<lambda>t.
               Inr (Some (c @ t))))
        else Inr cols2) (\<lambda>cols3.
     case cols3 of
       None \<Rightarrow> Inl (UnboundLocalError ''compcor_cols'')
     | Some compcor_cols \<Rightarrow>
         and_then (check_params confounds_raw compcor_cols) (\<lambda>_.
           getitem_cols confounds_raw compcor_cols))))"

text \<open>
  \<^verbatim>\<open>_pca_motion\<close>. \<^verbatim>\<open>n_components\<close> is an integer here (the fractional form of the
  docstring is not modelled). The new frame's columns are numbered from 0 and relabelled
  \<^verbatim>\<open>"motion_pca_" + str(col + 1)\<close>.
\<close>

definition pca_motion :: "env \<Rightarrow> dataframe \<Rightarrow> int \<Rightarrow> error + dataframe" where
  "pca_motion E confounds_motion n_components =
     (let n_available = int (length (items confounds_motion)) in
      if n_components > n_available then Inl (ComponentCountExceeded n_components n_available)
      else
        and_then (sk_scale E True True (to_values (dropna confounds_motion))) (\<lambda>confounds_motion_std.
        and_then (sk_pca E n_components confounds_motion_std) (\<lambda>motion_pca.
          Inr \<lparr>n_index = shape0 motion_pca,
               items = zip (map (\<lambda>col. ''motion_pca_'' @ str_nat (col + 1)) [0..<length (cols motion_pca)])
                           (cols motion_pca)\<rparr>)))"

definition load_motion :: "env \<Rightarrow> dataframe \<Rightarrow> string \<Rightarrow> int \<Rightarrow> error + dataframe" where
  "load_motion E confounds_raw motion n_motion =
     and_then (add_suffix E [''trans_x'', ''trans_y'', ''trans_z'', ''rot_x'', ''rot_y'', ''rot_z''] motion)
       (\<lambda>motion_params.
     and_then (check_params confounds_raw motion_params) (\<lambda>_.
     and_then (getitem_cols confounds_raw motion_params) (\<lambda>confounds_motion.
       if n_motion > 0 then pca_motion E confounds_motion n_motion
       else Inr confounds_motion)))"

section \<open>Censoring\<close>

text \<open>
  The numpy calls of the censoring code on one-dimensional integer arrays:
  \<^verbatim>\<open>range(a, b)\<close>, \<^verbatim>\<open>np.where(column > thresh)[0]\<close> (a missing value compares
  false), \<^verbatim>\<open>np.unique\<close> (sorted, without repetitions), \<^verbatim>\<open>np.sort\<close>,
  \<^verbatim>\<open>np.diff\<close>, and \<^verbatim>\<open>np.where\<close> on the two-sided test of the differences.
\<close>

definition py_range :: "int \<Rightarrow> int \<Rightarrow> int list" where
  "py_range a b = [a..b - 1]"

fun cell_gt :: "cell \<Rightarrow> real \<Rightarrow> bool" where
  "cell_gt NaN thresh = False"
| "cell_gt (Num x) thresh = (x > thresh)"

definition where_gt :: "cell list \<Rightarrow> real \<Rightarrow> int list" where
  "where_gt c thresh = map int (filter (\<lambda>i. cell_gt (c ! i) thresh) [0..<length c])"

definition np_unique :: "int list \<Rightarrow> int list" where
  "np_unique a = sort (remdups a)"

definition np_sort :: "int list \<Rightarrow> int list" where
  "np_sort a = sort a"

definition np_diff :: "int list \<Rightarrow> int list" where
  "np_diff a = map (\<lambda>i. a ! Suc i - a ! i) [0..<length a - 1]"

definition where_short :: "int list \<Rightarrow> nat list" where
  "where_short d = filter (\<lambda>i. d ! i > 1 \<and> d ! i < 6) [0..<length d]"

text \<open>
  The loop of \<^verbatim>\<open>_optimize_censoring\<close> over \<^verbatim>\<open>short_segments_inds\<close>: each pass
  appends \<^verbatim>\<open>range(fd_outliers[ind] + 1, fd_outliers[ind + 1])\<close> to the array. Every
  \<open>ind\<close> is below the length of the differences, so both reads are in range.
\<close>

fun fill_loop :: "nat list \<Rightarrow> int list \<Rightarrow> int list" where
  "fill_loop [] fd_outliers = fd_outliers"
| "fill_loop (ind # inds) fd_outliers =
     fill_loop inds (fd_outliers @ py_range (fd_outliers ! ind + 1) (fd_outliers ! (ind + 1)))"

text \<open>
  \<^verbatim>\<open>_optimize_censoring\<close>. \<^verbatim>\<open>fd_outliers[0]\<close> on an empty array raises
  \<^verbatim>\<open>IndexError\<close>; after that the array is never empty, so \<^verbatim>\<open>fd_outliers[-1]\<close> is
  its last element.
\<close>

definition optimize_censoring :: "int list \<Rightarrow> int \<Rightarrow> error + int list" where
  "optimize_censoring fd_outliers n_scans =
     (if fd_outliers = [] then Inl IndexError
      else
        let fd1 = (if hd fd_outliers < 5
                   then py_range 0 (hd fd_outliers) @ fd_outliers
                   else fd_outliers);
            fd2 = (if n_scans - (last fd1 + 1) < 5
                   then fd1 @ py_range (last fd1) n_scans
                   else fd1);
            fd_outlier_ind_diffs = np_diff fd2;
            short_segments_inds = where_short fd_outlier_ind_diffs;
            fd3 = fill_loop short_segments_inds fd2
        in Inr (np_sort (np_unique fd3)))"

text \<open>
  \<^verbatim>\<open>np.transpose(np.eye(n_scans)[combined_outliers]).astype(int)\<close>: one column per
  index, 1 at that row and 0 elsewhere; an index outside \<open>-n_scans \<le> i < n_scans\<close> raises
  \<^verbatim>\<open>IndexError\<close>, a negative one inside counts from the end.
\<close>

definition eye_row :: "nat \<Rightarrow> nat \<Rightarrow> cell list" where
  "eye_row n k = map (\<lambda>j. if j = k then Num 1 else Num 0) [0..<n]"

fun one_hot :: "nat \<Rightarrow> int list \<Rightarrow> error + cell list list" where
  "one_hot n_scans [] = Inr []"
| "one_hot n_scans (i # rest) =
     (if i < - int n_scans \<or> int n_scans \<le> i then Inl IndexError
      else and_then (one_hot n_scans rest) (\<lambda>regs.
             Inr (eye_row n_scans (nat (if i < 0 then i + int n_scans else i)) # regs)))"

text \<open>\<^verbatim>\<open>_load_censoring\<close>.\<close>

definition load_censoring :: "dataframe \<Rightarrow> string \<Rightarrow> real \<Rightarrow> real \<Rightarrow> error + dataframe" where
  "load_censoring confounds_raw censoring fd_thresh std_dvars_thresh =
     (let n_scans = n_index confounds_raw in
      and_then (getitem_col confounds_raw ''framewise_displacement'') (\<lambda>fd.
      and_then (getitem_col confounds_raw ''std_dvars'') (\<lambda>dvars.
        let fd_outliers = where_gt fd fd_thresh;
            dvars_outliers = where_gt dvars std_dvars_thresh;
            combined_outliers = np_sort (np_unique (fd_outliers @ dvars_outliers))
        in
        and_then (if censoring = ''optimized''
                  then optimize_censoring combined_outliers (int n_scans)
                  else Inr combined_outliers) (\<lambda>combined_outliers.
        and_then (one_hot n_scans combined_outliers) (\<lambda>regs.
          Inr \<lparr>n_index = n_scans,
               items = zip (map (\<lambda>num. ''motion_outlier_'' @ str_nat num) [0..<length regs]) regs\<rparr>)))))"

section \<open>Strategy validation and the \<^verbatim>\<open>Confounds\<close> class\<close>

definition all_confounds :: "string list" where
  "all_confounds =
     [''motion'', ''high_pass'', ''wm_csf'', ''global'', ''compcor'', ''ica_aroma'', ''censoring'']"

text \<open>
  The \<^verbatim>\<open>strategy\<close> argument is any Python object; \<^verbatim>\<open>isinstance(strategy, list)\<close>
  holds for a list only.
\<close>

datatype strategy_arg =
    AsList "string list"
  | AsTuple "string list"
  | AsSet "string list"
  | AsStr string

fun check_strategy :: "string list \<Rightarrow> error + unit" where
  "check_strategy [] = Inr ()"
| "check_strategy (conf # rest) =
     (if conf \<notin> set all_confounds then Inl (UnsupportedConfound conf)
      else check_strategy rest)"

fun sanitize_strategy :: "strategy_arg \<Rightarrow> error + string list" where
  "sanitize_strategy (AsList strategy) =
     and_then (check_strategy strategy) (\<lambda>_. Inr strategy)"
| "sanitize_strategy _ = Inl StrategyNotAList"

text \<open>The spec's condition InvalidStrategy: either \<^verbatim>\<open>ValueError\<close> of \<^verbatim>\<open>_sanitize_strategy\<close>.\<close>

fun InvalidStrategy :: "error \<Rightarrow> bool" where
  "InvalidStrategy (UnsupportedConfound conf) = True"
| "InvalidStrategy StrategyNotAList = True"
| "InvalidStrategy _ = False"

text \<open>
  Results keep the arity of the input: one value, or a list of values. The attributes
  \<^verbatim>\<open>confounds_\<close> and \<^verbatim>\<open>columns_\<close> exist once \<^verbatim>\<open>load\<close> has returned.
\<close>

datatype 'a arity = Single 'a | Multiple "'a list"

record confounds_obj =
  self_strategy :: "string list"
  self_motion :: string
  self_n_motion :: int
  self_censoring :: string
  self_fd_thresh :: real
  self_std_dvars_thresh :: real
  self_wm_csf :: string
  self_global_signal :: string
  self_compcor :: string
  self_acompcor_combined :: bool
  self_n_compcor :: n_compcor
  self_demean :: bool
  self_confounds :: "ndarray arity option"
  self_columns :: "string list arity option"

text \<open>\<^verbatim>\<open>Confounds.__init__\<close>: only the strategy is checked.\<close>

definition Confounds_init ::
  "strategy_arg \<Rightarrow> string \<Rightarrow> int \<Rightarrow> string \<Rightarrow> real \<Rightarrow> real \<Rightarrow> string \<Rightarrow> string \<Rightarrow> string
     \<Rightarrow> bool \<Rightarrow> n_compcor \<Rightarrow> bool \<Rightarrow> error + confounds_obj" where
  "Confounds_init strategy motion n_motion censoring fd_thresh std_dvars_thresh wm_csf
       global_signal compcor acompcor_combined n_compcor demean =
     and_then (sanitize_strategy strategy) (\<lambda>strategy'.
       Inr \<lparr>self_strategy = strategy', self_motion = motion, self_n_motion = n_motion,
            self_censoring = censoring, self_fd_thresh = fd_thresh,
            self_std_dvars_thresh = std_dvars_thresh, self_wm_csf = wm_csf,
            self_global_signal = global_signal, self_compcor = compcor,
            self_acompcor_combined = acompcor_combined, self_n_compcor = n_compcor,
            self_demean = demean, self_confounds = None, self_columns = None\<rparr>)"

text \<open>
  The defaults of the signature (the default \<^verbatim>\<open>fd_thresh\<close> is the floating-point
  number nearest to 2/10; nothing below depends on its value).
\<close>

definition Confounds_default :: "strategy_arg \<Rightarrow> error + confounds_obj" where
  "Confounds_default strategy =
     Confounds_init strategy ''full'' 0 ''basic'' (2 / 10) 3 ''basic'' ''basic'' ''anat'' True Auto True"

section \<open>Assembly\<close>

text \<open>
  \<^verbatim>\<open>_confounds_to_ndarray\<close>. \<^verbatim>\<open>confounds[0, :]\<close> needs a first row and
  \<^verbatim>\<open>confounds[1, mask_nan]\<close> a second one; a column whose first value is missing gets
  its second value there.
\<close>

definition backfill :: "cell list \<Rightarrow> cell list" where
  "backfill c = (if c ! 0 = NaN then c[0 := c ! 1] else c)"

definition confounds_to_ndarray :: "env \<Rightarrow> dataframe \<Rightarrow> bool \<Rightarrow> error + (ndarray \<times> string list)" where
  "confounds_to_ndarray E confounds demean =
     (let labels = columns confounds;
          a = to_values confounds
      in if shape0 a < 1 then Inl IndexError
         else if shape0 a < 2 then Inl IndexError
         else
           let a' = a\<lparr>cols := map backfill (cols a)\<rparr> in
           and_then (if demean then sk_scale E True False a' else Inr a') (\<lambda>a''.
             Inr (a'', labels)))"

text \<open>\<^verbatim>\<open>_sanitize_confounds\<close>: a string or a \<^verbatim>\<open>DataFrame\<close> is wrapped in a list.\<close>

fun sanitize_confounds :: "source arity \<Rightarrow> source list \<times> bool" where
  "sanitize_confounds (Single confounds_raw) = ([confounds_raw], True)"
| "sanitize_confounds (Multiple confounds_raw) = (confounds_raw, False)"

text \<open>
  One \<^verbatim>\<open>if "<category>" in self.strategy:\<close> block of \<^verbatim>\<open>_load_single\<close>: when the
  category is in the strategy its loader runs and its block is concatenated to the right.
\<close>

definition add_block :: "bool \<Rightarrow> error + dataframe \<Rightarrow> dataframe \<Rightarrow> error + dataframe" where
  "add_block active loaded confounds =
     (if active then and_then loaded (\<lambda>block. Inr (pd_concat confounds block))
      else Inr confounds)"

definition load_single :: "env \<Rightarrow> confounds_obj \<Rightarrow> source \<Rightarrow> error + (ndarray \<times> string list)" where
  "load_single E self file =
     and_then (read_confounds E file) (\<lambda>(confounds_raw, confounds_json).
     and_then (add_block (''motion'' \<in> set (self_strategy self))
                 (load_motion E confounds_raw (self_motion self) (self_n_motion self))
                 empty_frame) (\<lambda>confounds.
     and_then (add_block (''censoring'' \<in> set (self_strategy self))
                 (load_censoring confounds_raw (self_censoring self) (self_fd_thresh self)
                    (self_std_dvars_thresh self))
                 confounds) (\<lambda>confounds.
     and_then (add_block (''high_pass'' \<in> set (self_strategy self))
                 (load_high_pass confounds_raw) confounds) (\<lambda>confounds.
     and_then (add_block (''wm_csf'' \<in> set (self_strategy self))
                 (load_wm_csf E confounds_raw (self_wm_csf self)) confounds) (\<lambda>confounds.
     and_then (add_block (''global'' \<in> set (self_strategy self))
                 (load_global E confounds_raw (self_global_signal self)) confounds) (\<lambda>confounds.
     and_then (add_block (''compcor'' \<in> set (self_strategy self))
                 (load_compcor confounds_raw confounds_json (self_compcor self)
                    (self_n_compcor self) (self_acompcor_combined self))
                 confounds) (\<lambda>confounds.
     and_then (add_block (''ica_aroma'' \<in> set (self_strategy self))
                 (load_ica_aroma confounds_raw) confounds) (\<lambda>confounds.
       confounds_to_ndarray E confounds (self_demean self)))))))))"

text \<open>
  \<^verbatim>\<open>Confounds.load\<close>: the loop over the inputs stops at the first exception; the
  result is the matrices, and the object keeps them and the labels.
\<close>

fun load_loop ::
  "env \<Rightarrow> confounds_obj \<Rightarrow> source list \<Rightarrow> ndarray list \<Rightarrow> string list list
     \<Rightarrow> error + (ndarray list \<times> string list list)" where
  "load_loop E self [] confounds_out columns_out = Inr (confounds_out, columns_out)"
| "load_loop E self (file # rest) confounds_out columns_out =
     and_then (load_single E self file) (\<lambda>(conf, col).
       load_loop E self rest (confounds_out @ [conf]) (columns_out @ [col]))"

definition load :: "env \<Rightarrow> confounds_obj \<Rightarrow> source arity \<Rightarrow> error + (ndarray arity \<times> confounds_obj)" where
  "load E self confounds_raw =
     (case sanitize_confounds confounds_raw of (confounds_raw', flag_single) \<Rightarrow>
      and_then (load_loop E self confounds_raw' [] []) (\<lambda>(confounds_out, columns_out).
        let confounds_out' = (if flag_single then Single (confounds_out ! 0)
                              else Multiple confounds_out);
            columns_out' = (if flag_single then Single (columns_out ! 0)
                            else Multiple columns_out)
        in Inr (confounds_out',
                self\<lparr>self_confounds := Some confounds_out', self_columns := Some columns_out'\<rparr>)))"

section \<open>Sample inputs\<close>

text \<open>
  A small table in the layout of the preprocessing output, its sidecar, and stand-ins for
  the outside functions, used to run the model on concrete inputs. The stand-in for
  \<open>sk_scale\<close> subtracts each column's mean over its present values and the one for
  \<open>sk_pca\<close> keeps the first \<open>n\<close> columns: they have the shapes of the library's results,
  not their values, and they refuse what the library refuses (an array without rows or
  columns; more components than rows or columns).
\<close>

definition sample_table :: dataframe where
  "sample_table =
     \<lparr>n_index = 4,
      items =
        [(''trans_x'', [Num 0, Num 1, Num 2, Num 1]),
         (''trans_y'', [Num 0, Num 0, Num 1, Num 1]),
         (''trans_z'', [Num 1, Num 0, Num 1, Num 0]),
         (''rot_x'', [Num 0, Num 1, Num 0, Num 1]),
         (''rot_y'', [Num 2, Num 1, Num 0, Num 1]),
         (''rot_z'', [Num 1, Num 1, Num 0, Num 0]),
         (''framewise_displacement'', [NaN, Num (1 / 10), Num (5 / 10), Num (1 / 10)]),
         (''std_dvars'', [NaN, Num 1, Num 1, Num 1]),
         (''cosine00'', [Num 1, Num 0, Num (- 1), Num 0]),
         (''cosine01'', [Num 1, Num (- 1), Num 1, Num (- 1)]),
         (''csf'', [Num 3, Num 4, Num 5, Num 4]),
         (''white_matter'', [Num 6, Num 6, Num 7, Num 5]),
         (''global_signal'', [Num 9, Num 8, Num 9, Num 10]),
         (''global_signal_derivative1'', [NaN, Num (- 1), Num 1, Num 1]),
         (''a_comp_cor_00'', [Num 1, Num 2, Num 1, Num 0]),
         (''a_comp_cor_01'', [Num 0, Num 2, Num 2, Num 0]),
         (''a_comp_cor_02'', [Num 1, Num 0, Num 0, Num 3]),
         (''t_comp_cor_00'', [Num 2, Num 0, Num 1, Num 1])]\<rparr>"

definition sample_sidecar :: sidecar where
  "sample_sidecar =
     [(''a_comp_cor_00'', JObj [(''Mask'', JStr ''combined''), (''Retained'', JBool True)]),
      (''a_comp_cor_01'', JObj [(''Mask'', JStr ''CSF''), (''Retained'', JBool True)]),
      (''a_comp_cor_02'', JObj [(''Mask'', JStr ''WM''), (''Retained'', JBool True)]),
      (''t_comp_cor_00'', JObj [(''Method'', JStr ''tCompCor''), (''Retained'', JBool True)])]"

definition sample_path :: string where
  "sample_path = ''sub-01_desc-confounds_timeseries.tsv''"

definition centre :: "cell list \<Rightarrow> cell list" where
  "centre c =
     (let present = concat (map (\<lambda>x. case x of NaN \<Rightarrow> [] | Num v \<Rightarrow> [v]) c);
          mean = (if present = [] then 0 else sum_list present / real (length present))
      in map (\<lambda>x. case x of NaN \<Rightarrow> NaN | Num v \<Rightarrow> Num (v - mean)) c)"

definition sample_env :: env where
  "sample_env =
     \<lparr>set_iter = [''derivative1'', ''power2'', ''derivative1_power2''],
      read_confounds =
        (\<lambda>file. case file of
           Path p \<Rightarrow> if p = sample_path then Inr (sample_table, sample_sidecar)
                     else Inl (LibraryError ''FileNotFoundError'')
         | Table df \<Rightarrow> Inl TypeError),
      sk_scale =
        (\<lambda>with_mean with_std a.
           if shape0 a = 0 \<or> cols a = [] then Inl (LibraryError ''ValueError'')
           else Inr (if with_mean then a\<lparr>cols := map centre (cols a)\<rparr> else a)),
      sk_pca =
        (\<lambda>n a.
           if n < 0 \<or> int (min (shape0 a) (length (cols a))) < n then Inl (LibraryError ''ValueError'')
           else Inr (a\<lparr>cols := take (nat n) (cols a)\<rparr>))\<rparr>"

definition sample_obj :: "string list \<Rightarrow> confounds_obj" where
  "sample_obj strategy =
     \<lparr>self_strategy = strategy, self_motion = ''basic'', self_n_motion = 0,
      self_censoring = ''basic'', self_fd_thresh = 2 / 10, self_std_dvars_thresh = 3,
      self_wm_csf = ''basic'', self_global_signal = ''basic'', self_compcor = ''anat'',
      self_acompcor_combined = True, self_n_compcor = Auto, self_demean = False,
      self_confounds = None, self_columns = None\<rparr>"

text \<open>A table without any outlier at the default thresholds.\<close>

definition quiet_table :: dataframe where
  "quiet_table =
     \<lparr>n_index = 3,
      items =
        [(''framewise_displacement'', [NaN, Num (1 / 10), Num (15 / 100)]),
         (''std_dvars'', [NaN, Num 1, Num (12 / 10)])]\<rparr>"

text \<open>Two motion columns of the sample table, as a block.\<close>

definition sample_block :: dataframe where
  "sample_block =
     \<lparr>n_index = 4,
      items = [(''trans_x'', [Num 0, Num 1, Num 2, Num 1]),
               (''trans_y'', [Num 0, Num 0, Num 1, Num 1])]\<rparr>"

section \<open>Notions used to state the properties\<close>

text \<open>
  The column names \<^verbatim>\<open>_label_compcor\<close> runs through for a prefix: as many names
  \<open>prefix_comp_cor_NN\<close>, numbered from 0, as the sidecar has keys containing
  \<open>prefix_comp_cor\<close>; and the test that the sidecar records a given mask label for a column.
\<close>

definition enumerated :: "sidecar \<Rightarrow> string \<Rightarrow> string list" where
  "enumerated confounds_json pfx =
     map (compcor_name pfx)
       [0..<length (filter (\<lambda>comp. sublist (pfx @ ''_comp_cor'') comp) (map fst confounds_json))]"

definition has_mask :: "sidecar \<Rightarrow> string \<Rightarrow> string \<Rightarrow> bool" where
  "has_mask confounds_json label col = (mask_of confounds_json col = Inr (JStr label))"

text \<open>
  The assembly as the specification words it: the categories in their fixed order, those
  of the strategy kept, each with its loader; the blocks' columns side by side, every
  column filled up to the longest block and its missing first value replaced.
\<close>

definition category_order :: "string list" where
  "category_order =
     [''motion'', ''censoring'', ''high_pass'', ''wm_csf'', ''global'', ''compcor'', ''ica_aroma'']"

definition load_category ::
  "env \<Rightarrow> confounds_obj \<Rightarrow> dataframe \<Rightarrow> sidecar \<Rightarrow> string \<Rightarrow> error + dataframe" where
  "load_category E self confounds_raw confounds_json category =
     (if category = ''motion''
        then load_motion E confounds_raw (self_motion self) (self_n_motion self)
      else if category = ''censoring''
        then load_censoring confounds_raw (self_censoring self) (self_fd_thresh self)
               (self_std_dvars_thresh self)
      else if category = ''high_pass'' then load_high_pass confounds_raw
      else if category = ''wm_csf'' then load_wm_csf E confounds_raw (self_wm_csf self)
      else if category = ''global'' then load_global E confounds_raw (self_global_signal self)
      else if category = ''compcor''
        then load_compcor confounds_raw confounds_json (self_compcor self) (self_n_compcor self)
               (self_acompcor_combined self)
      else load_ica_aroma confounds_raw)"

definition active_categories :: "confounds_obj \<Rightarrow> string list" where
  "active_categories self = filter (\<lambda>category. category \<in> set (self_strategy self)) category_order"

definition n_rows :: "dataframe list \<Rightarrow> nat" where
  "n_rows blocks = foldl max 0 (map n_index blocks)"

definition stacked :: "dataframe list \<Rightarrow> ndarray" where
  "stacked blocks =
     \<lparr>shape0 = n_rows blocks,
      cols = map (\<lambda>c. backfill (pad (n_rows blocks) c)) (concat (map (\<lambda>b. map snd (items b)) blocks))\<rparr>"

text \<open>The library's standardisation returns an array with as many columns as it was given.\<close>

definition keeps_columns :: "env \<Rightarrow> bool" where
  "keeps_columns E =
     (\<forall>with_mean with_std a a'. sk_scale E with_mean with_std a = Inr a' \<longrightarrow>
        length (cols a') = length (cols a))"

text \<open>The seven steps of \<^verbatim>\<open>_load_single\<close> as one loop over (test, loader result) pairs.\<close>

fun run_blocks :: "dataframe \<Rightarrow> (bool \<times> (error + dataframe)) list \<Rightarrow> error + dataframe" where
  "run_blocks confounds [] = Inr confounds"
| "run_blocks confounds ((active, loaded) # rest) =
     and_then (add_block active loaded confounds) (\<lambda>confounds'. run_blocks confounds' rest)"

text \<open>
  The lengths of the clean runs between consecutive entries of an increasing list of
  outlier indices, and the timepoints lying in a gap of the list whose two ends differ
  by more than 1 and less than 6.
\<close>

fun clean_runs :: "int list \<Rightarrow> int list" where
  "clean_runs (a # b # rest) = (b - a - 1) # clean_runs (b # rest)"
| "clean_runs _ = []"

definition short_gaps :: "int list \<Rightarrow> int set" where
  "short_gaps L =
     {x. \<exists>i. i + 1 < length L \<and> 1 < L ! (i + 1) - L ! i \<and> L ! (i + 1) - L ! i < 6
              \<and> L ! i < x \<and> x < L ! (i + 1)}"

text \<open>
  The array of \<^verbatim>\<open>_optimize_censoring\<close> after its first two steps: the leading segment
  put in front when the first outlier is below 5, the trailing segment appended when
  fewer than 5 scans follow the last outlier.
\<close>

definition extended :: "int list \<Rightarrow> int \<Rightarrow> int list" where
  "extended fd_outliers n_scans =
     (let fd1 = (if hd fd_outliers < 5
                 then py_range 0 (hd fd_outliers) @ fd_outliers
                 else fd_outliers)
      in if n_scans - (last fd1 + 1) < 5 then fd1 @ py_range (last fd1) n_scans else fd1)"

text \<open>The six motion columns of the sample table, as a block: six columns, four rows.\<close>

definition sample_motion :: dataframe where
  "sample_motion =
     \<lparr>n_index = 4,
      items =
        [(''trans_x'', [Num 0, Num 1, Num 2, Num 1]),
         (''trans_y'', [Num 0, Num 0, Num 1, Num 1]),
         (''trans_z'', [Num 1, Num 0, Num 1, Num 0]),
         (''rot_x'', [Num 0, Num 1, Num 0, Num 1]),
         (''rot_y'', [Num 2, Num 1, Num 0, Num 1]),
         (''rot_z'', [Num 1, Num 1, Num 0, Num 0])]\<rparr>"

text \<open>
  What scikit-learn documents about the shapes of the two calls, on arrays without missing
  values: \<^verbatim>\<open>scale\<close> returns an array of the shape it was given, and does so on every
  array with at least one row and one column; \<^verbatim>\<open>PCA(n_components=n).fit_transform\<close>
  returns \<open>n\<close> columns over the same rows when \<open>1 \<le> n \<le> min(n_samples, n_features)\<close>, and
  raises when \<open>n\<close> is larger than that minimum.
\<close>

definition complete :: "ndarray \<Rightarrow> bool" where
  "complete a = list_all (\<lambda>c. NaN \<notin> set c) (cols a)"

definition sklearn_shapes :: "env \<Rightarrow> bool" where
  "sklearn_shapes E =
     ((\<forall>with_mean with_std a a'. sk_scale E with_mean with_std a = Inr a' \<longrightarrow>
          shape0 a' = shape0 a \<and> length (cols a') = length (cols a)
          \<and> (complete a \<longrightarrow> complete a'))
      \<and> (\<forall>with_mean with_std a. 1 \<le> shape0 a \<and> cols a \<noteq> [] \<and> complete a \<longrightarrow>
          (\<exists>a'. sk_scale E with_mean with_std a = Inr a'))
      \<and> (\<forall>n a. 1 \<le> n \<and> n \<le> int (min (shape0 a) (length (cols a))) \<and> complete a \<longrightarrow>
          (\<exists>c. sk_pca E n a = Inr c \<and> shape0 c = shape0 a \<and> int (length (cols c)) = n))
      \<and> (\<forall>n a. int (min (shape0 a) (length (cols a))) < n \<longrightarrow> (\<exists>e. sk_pca E n a = Inl e)))"

text \<open>
  The value \<^verbatim>\<open>load\<close> hands back, as a Python object, and the value the specification
  describes: for a list of inputs a list of (matrix, labels) pairs in input order, for a
  single input a single pair.
\<close>

datatype pyvalue =
    PyArray ndarray
  | PyLabels "string list"
  | PyTuple "pyvalue list"
  | PyList "pyvalue list"

fun returned :: "ndarray arity \<Rightarrow> pyvalue" where
  "returned (Single conf) = PyArray conf"
| "returned (Multiple confs) = PyList (map PyArray confs)"

fun collect :: "(error + 'a) list \<Rightarrow> error + 'a list" where
  "collect [] = Inr []"
| "collect (r # rest) = and_then r (\<lambda>x. and_then (collect rest) (\<lambda>xs. Inr (x # xs)))"

definition pair_of :: "ndarray \<times> string list \<Rightarrow> pyvalue" where
  "pair_of r = PyTuple [PyArray (fst r), PyLabels (snd r)]"

fun load_as_specified :: "env \<Rightarrow> confounds_obj \<Rightarrow> source arity \<Rightarrow> error + pyvalue" where
  "load_as_specified E self (Single src) =
     and_then (load_single E self src) (\<lambda>r. Inr (pair_of r))"
| "load_as_specified E self (Multiple srcs) =
     and_then (collect (map (load_single E self) srcs)) (\<lambda>rs. Inr (PyList (map pair_of rs)))"

section \<open>Compcor selection: facts\<close>

lemma and_then_Inr_iff:
  "and_then m f = Inr y \<longleftrightarrow> (\<exists>x. m = Inr x \<and> f x = Inr y)"
  by (cases m) (simp_all add: and_then_def)

lemma and_then_Inl_iff:
  "and_then m f = Inl e \<longleftrightarrow> m = Inl e \<or> (\<exists>x. m = Inr x \<and> f x = Inl e)"
  by (cases m) (simp_all add: and_then_def)

lemma and_then_simps [simp]:
  "and_then (Inl e) f = Inl e"
  "and_then (Inr x) f = f x"
  by (simp_all add: and_then_def)

lemma select_compcor_Auto: "select_compcor compcor_cols Auto m = Inr compcor_cols"
  by (simp add: select_compcor_def)

lemma select_compcor_enough:
  "int (length compcor_cols) \<le> n \<Longrightarrow> select_compcor compcor_cols (Count n) m = Inr compcor_cols"
  by (simp add: select_compcor_def)

lemma select_compcor_fewer:
  "n < int (length compcor_cols) \<Longrightarrow>
   select_compcor compcor_cols (Count n) m = Inl (NameError ''compcor_col'')"
  by (simp add: select_compcor_def)

lemma select_compcor_Inr: "select_compcor compcor_cols n m = Inr r \<Longrightarrow> r = compcor_cols"
  by (auto simp: select_compcor_def split: n_compcor.splits if_splits)

text \<open>
  C1. \<^verbatim>\<open>_select_compcor\<close> is to return the first \<open>n_compcor\<close> columns when fewer are
  requested than there are. On two columns with \<open>n_compcor = 1\<close> the code does not return
  the first column: it raises \<^verbatim>\<open>NameError\<close> for the misspelt \<^verbatim>\<open>compcor_col\<close>.
\<close>

theorem C1_select_compcor_truncation_raises:
  "select_compcor [''a_comp_cor_00'', ''a_comp_cor_01''] (Count 1) (MaskStr ''combined'')
     = Inl (NameError ''compcor_col'')"
  by (simp add: select_compcor_def)

section \<open>Strategy validation: facts\<close>

lemma check_strategy_Inr: "check_strategy l = Inr u \<longleftrightarrow> set l \<subseteq> set all_confounds"
  by (induction l) auto

lemma check_strategy_Inl: "check_strategy l = Inl e \<Longrightarrow> \<exists>c. e = UnsupportedConfound c \<and> c \<in> set l \<and> c \<notin> set all_confounds"
  by (induction l) (auto split: if_splits)

lemma sanitize_strategy_Inr:
  "sanitize_strategy s = Inr r \<longleftrightarrow> s = AsList r \<and> set r \<subseteq> set all_confounds"
  by (cases s) (auto simp: and_then_Inr_iff check_strategy_Inr)

lemma sanitize_strategy_Inl:
  "sanitize_strategy s = Inl e \<Longrightarrow> InvalidStrategy e"
  by (cases s) (auto simp: and_then_Inl_iff dest: check_strategy_Inl)

lemma Confounds_init_Inr:
  "Confounds_init s m nm c fd dv w g cc ac nc d = Inr obj \<Longrightarrow> sanitize_strategy s = Inr (self_strategy obj)"
  by (auto simp: Confounds_init_def and_then_Inr_iff)

lemma Confounds_init_Inl:
  "Confounds_init s m nm c fd dv w g cc ac nc d = Inl e \<longleftrightarrow> sanitize_strategy s = Inl e"
  by (auto simp: Confounds_init_def and_then_Inl_iff)

text \<open>
  C8, as amended. Construction fails, and then with the condition InvalidStrategy, exactly
  when the strategy is not a list of names of \<open>all_confounds\<close>: a set, a tuple or a string
  is refused like any other non-list, and a list with an unknown name is refused. Every
  list of known names is accepted as it is, the empty list and lists with repetitions
  included; nothing but the strategy is checked.
\<close>

theorem C8_strategy_validated_at_construction:
  "(Confounds_init s m nm c fd dv w g cc ac nc d = Inl e \<longrightarrow> InvalidStrategy e)
   \<and> ((\<exists>e. Confounds_init s m nm c fd dv w g cc ac nc d = Inl e)
        \<longleftrightarrow> \<not> (\<exists>l. s = AsList l \<and> set l \<subseteq> set all_confounds))
   \<and> (set l \<subseteq> set all_confounds \<longrightarrow>
        (\<exists>obj. Confounds_init (AsList l) m nm c fd dv w g cc ac nc d = Inr obj \<and> self_strategy obj = l))"
proof (intro conjI impI)
  assume "Confounds_init s m nm c fd dv w g cc ac nc d = Inl e"
  then show "InvalidStrategy e"
    by (simp add: Confounds_init_Inl sanitize_strategy_Inl)
next
  show "(\<exists>e. Confounds_init s m nm c fd dv w g cc ac nc d = Inl e)
        \<longleftrightarrow> \<not> (\<exists>l. s = AsList l \<and> set l \<subseteq> set all_confounds)"
  proof (cases "sanitize_strategy s")
    case (Inl e)
    then show ?thesis
      using sanitize_strategy_Inr[of s] by (auto simp: Confounds_init_Inl)
  next
    case (Inr r)
    then show ?thesis
      using sanitize_strategy_Inr[of s r] by (auto simp: Confounds_init_Inl)
  qed
next
  assume "set l \<subseteq> set all_confounds"
  then have "sanitize_strategy (AsList l) = Inr l"
    using sanitize_strategy_Inr[of "AsList l" l] by blast
  then show "\<exists>obj. Confounds_init (AsList l) m nm c fd dv w g cc ac nc d = Inr obj \<and> self_strategy obj = l"
    by (simp add: Confounds_init_def)
qed

theorem C8_witness:
  "(\<exists>e. Confounds_default (AsSet [''motion'']) = Inl e)
   \<and> (\<exists>e. Confounds_default (AsList [''motion'', ''scrubbing'']) = Inl e)
   \<and> (\<exists>obj. Confounds_default (AsList [''motion'', ''high_pass'', ''motion'']) = Inr obj
          \<and> self_strategy obj = [''motion'', ''high_pass'', ''motion''])"
  using C8_strategy_validated_at_construction
    [of "AsSet [''motion'']" "''full''" 0 "''basic''" "2/10" 3 "''basic''" "''basic''" "''anat''" True Auto True _ "[''motion'', ''high_pass'', ''motion'']"]
   C8_strategy_validated_at_construction
    [of "AsList [''motion'', ''scrubbing'']" "''full''" 0 "''basic''" "2/10" 3 "''basic''" "''basic''" "''anat''" True Auto True _ "[]"]
  by (simp add: Confounds_default_def all_confounds_def)

text \<open>
  C8 as stated asks for a non-empty strategy, checked at construction: the empty list is
  accepted.
\<close>

theorem C8_empty_strategy_counterexample:
  "\<exists>obj. Confounds_default (AsList []) = Inr obj \<and> self_strategy obj = []"
  by (simp add: Confounds_default_def Confounds_init_def)

section \<open>Column resolution: facts\<close>

lemma check_params_Inr:
  "check_params raw params = Inr u \<longleftrightarrow> set params \<subseteq> set (columns raw)"
  by (induction params) auto



lemma filter_label_distinct:
  "distinct (map fst its) \<Longrightarrow> n \<in> set (map fst its) \<Longrightarrow>
   map fst (filter (\<lambda>it. fst it = n) its) = [n]"
  by (induction its) (auto simp: filter_empty_conv image_iff)

lemma getitem_cols_present:
  assumes "set names \<subseteq> set (columns df)"
  shows "getitem_cols df names =
           Inr \<lparr>n_index = n_index df,
                items = concat (map (\<lambda>n. filter (\<lambda>it. fst it = n) (items df)) names)\<rparr>"
proof -
  have "filter (\<lambda>n. n \<notin> set (columns df)) names = []"
    using assms by (auto simp: filter_empty_conv)
  then show ?thesis by (simp add: getitem_cols_def)
qed

lemma getitem_cols_Inr:
  "getitem_cols df names = Inr block \<Longrightarrow>
   block = \<lparr>n_index = n_index df,
            items = concat (map (\<lambda>n. filter (\<lambda>it. fst it = n) (items df)) names)\<rparr>"
  by (auto simp: getitem_cols_def split: list.splits)

lemma labels_concat_filter:
  "distinct (map fst its) \<Longrightarrow> set names \<subseteq> set (map fst its) \<Longrightarrow>
   map fst (concat (map (\<lambda>n. filter (\<lambda>it. fst it = n) its) names)) = names"
  by (induction names) (auto simp: filter_label_distinct simp del: set_map)

lemma getitem_cols_columns:
  assumes "distinct (columns df)" and "set names \<subseteq> set (columns df)"
  shows "\<exists>block. getitem_cols df names = Inr block \<and> columns block = names
                \<and> n_index block = n_index df \<and> set (items block) \<subseteq> set (items df)"
  using assms labels_concat_filter[of "items df" names]
  by (auto simp: getitem_cols_present columns_def)








section \<open>Loading: facts\<close>

lemma load_loop_Inr:
  "load_loop E self files co cl = Inr (co', cl') \<longleftrightarrow>
   (\<exists>rs. map (load_single E self) files = map Inr rs
         \<and> co' = co @ map fst rs \<and> cl' = cl @ map snd rs)"
proof (induction files arbitrary: co cl)
  case Nil
  then show ?case by auto
next
  case (Cons f files)
  show ?case
  proof (cases "load_single E self f")
    case (Inl e)
    then show ?thesis by (auto simp: map_eq_Cons_conv)
  next
    case (Inr r)
    obtain conf col where r: "r = (conf, col)" by (cases r)
    have "load_loop E self (f # files) co cl = Inr (co', cl') \<longleftrightarrow>
          (\<exists>rs. map (load_single E self) files = map Inr rs
               \<and> co' = co @ conf # map fst rs \<and> cl' = cl @ col # map snd rs)"
      by (simp add: Inr r Cons.IH)
    also have "\<dots> \<longleftrightarrow> (\<exists>rs. map (load_single E self) (f # files) = map Inr rs
               \<and> co' = co @ map fst rs \<and> cl' = cl @ map snd rs)"
    proof
      assume "\<exists>rs. map (load_single E self) files = map Inr rs
               \<and> co' = co @ conf # map fst rs \<and> cl' = cl @ col # map snd rs"
      then obtain rs where "map (load_single E self) files = map Inr rs"
        "co' = co @ conf # map fst rs" "cl' = cl @ col # map snd rs" by blast
      then have "map (load_single E self) (f # files) = map Inr ((conf, col) # rs)
               \<and> co' = co @ map fst ((conf, col) # rs) \<and> cl' = cl @ map snd ((conf, col) # rs)"
        by (simp add: Inr r)
      then show "\<exists>rs. map (load_single E self) (f # files) = map Inr rs
               \<and> co' = co @ map fst rs \<and> cl' = cl @ map snd rs" by blast
    next
      assume "\<exists>rs. map (load_single E self) (f # files) = map Inr rs
               \<and> co' = co @ map fst rs \<and> cl' = cl @ map snd rs"
      then obtain rs where rs: "map (load_single E self) (f # files) = map Inr rs"
        "co' = co @ map fst rs" "cl' = cl @ map snd rs" by blast
      then obtain r' rs' where c: "rs = r' # rs'" by (cases rs) auto
      with rs Inr r have "r' = (conf, col)" "map (load_single E self) files = map Inr rs'"
        by auto
      with rs c show "\<exists>rs. map (load_single E self) files = map Inr rs
               \<and> co' = co @ conf # map fst rs \<and> cl' = cl @ col # map snd rs"
        by auto
    qed
    finally show ?thesis .
  qed
qed

text \<open>
  C9 as stated: \<^verbatim>\<open>load\<close> returns (matrix, labels) pairs. On a single input the value
  returned is the matrix alone, and on a list the list of the matrices; the labels are
  not part of it.
\<close>

theorem C9_returns_matrices_counterexample:
  "map_sum id (\<lambda>r. returned (fst r))
       (load sample_env (sample_obj [''high_pass'']) (Single (Path sample_path)))
     = Inr (PyArray \<lparr>shape0 = 4, cols = [[Num 1, Num 0, Num (- 1), Num 0],
                                          [Num 1, Num (- 1), Num 1, Num (- 1)]]\<rparr>)
   \<and> load_as_specified sample_env (sample_obj [''high_pass'']) (Single (Path sample_path))
     = Inr (PyTuple [PyArray \<lparr>shape0 = 4, cols = [[Num 1, Num 0, Num (- 1), Num 0],
                                                   [Num 1, Num (- 1), Num 1, Num (- 1)]]\<rparr>,
                     PyLabels [''cosine00'', ''cosine01'']])
   \<and> map_sum id (\<lambda>r. returned (fst r))
       (load sample_env (sample_obj [''high_pass'']) (Single (Path sample_path)))
     \<noteq> load_as_specified sample_env (sample_obj [''high_pass'']) (Single (Path sample_path))
   \<and> map_sum id (\<lambda>r. returned (fst r))
       (load sample_env (sample_obj [''high_pass''])
          (Multiple [Path sample_path, Path sample_path]))
     \<noteq> load_as_specified sample_env (sample_obj [''high_pass''])
          (Multiple [Path sample_path, Path sample_path])"
proof -
  have a: "map_sum id (\<lambda>r. returned (fst r))
       (load sample_env (sample_obj [''high_pass'']) (Single (Path sample_path)))
     = Inr (PyArray \<lparr>shape0 = 4, cols = [[Num 1, Num 0, Num (- 1), Num 0],
                                          [Num 1, Num (- 1), Num 1, Num (- 1)]]\<rparr>)"
    by code_simp
  have b: "load_as_specified sample_env (sample_obj [''high_pass'']) (Single (Path sample_path))
     = Inr (PyTuple [PyArray \<lparr>shape0 = 4, cols = [[Num 1, Num 0, Num (- 1), Num 0],
                                                   [Num 1, Num (- 1), Num 1, Num (- 1)]]\<rparr>,
                     PyLabels [''cosine00'', ''cosine01'']])"
    by code_simp
  have c: "map_sum id (\<lambda>r. returned (fst r))
       (load sample_env (sample_obj [''high_pass''])
          (Multiple [Path sample_path, Path sample_path]))
     = Inr (PyList [PyArray \<lparr>shape0 = 4, cols = [[Num 1, Num 0, Num (- 1), Num 0],
                                                  [Num 1, Num (- 1), Num 1, Num (- 1)]]\<rparr>,
                    PyArray \<lparr>shape0 = 4, cols = [[Num 1, Num 0, Num (- 1), Num 0],
                                                  [Num 1, Num (- 1), Num 1, Num (- 1)]]\<rparr>])"
    by code_simp
  have d: "load_as_specified sample_env (sample_obj [''high_pass''])
          (Multiple [Path sample_path, Path sample_path])
     = Inr (PyList [PyTuple [PyArray \<lparr>shape0 = 4, cols = [[Num 1, Num 0, Num (- 1), Num 0],
                                                   [Num 1, Num (- 1), Num 1, Num (- 1)]]\<rparr>,
                     PyLabels [''cosine00'', ''cosine01'']],
                    PyTuple [PyArray \<lparr>shape0 = 4, cols = [[Num 1, Num 0, Num (- 1), Num 0],
                                                   [Num 1, Num (- 1), Num 1, Num (- 1)]]\<rparr>,
                     PyLabels [''cosine00'', ''cosine01'']]])"
    by code_simp
  show ?thesis
    unfolding a b c d by simp
qed

text \<open>
  C9, as amended. \<^verbatim>\<open>load\<close> on a list succeeds exactly when \<^verbatim>\<open>_load_single\<close> succeeds on every
  input, each input loaded on its own; the value returned is then the list of the
  matrices in input order, and the object holds that list and the list of the label
  sequences, in the same order (\<^verbatim>\<open>confounds_\<close>, \<^verbatim>\<open>columns_\<close>). On a single input
  the value returned and the attributes are the one matrix and the one label sequence,
  not lists of length one.
\<close>

theorem C9_load_mirrors_arity:
  "(load E self (Multiple files) = Inr (out, self') \<longleftrightarrow>
      (\<exists>rs. map (load_single E self) files = map Inr rs
           \<and> out = Multiple (map fst rs)
           \<and> self' = self\<lparr>self_confounds := Some (Multiple (map fst rs)),
                           self_columns := Some (Multiple (map snd rs))\<rparr>))
   \<and> (load E self (Single src) = Inr (out, self') \<longleftrightarrow>
      (\<exists>conf col. load_single E self src = Inr (conf, col)
           \<and> out = Single conf
           \<and> self' = self\<lparr>self_confounds := Some (Single conf),
                           self_columns := Some (Single col)\<rparr>))"
proof
  show "load E self (Multiple files) = Inr (out, self') \<longleftrightarrow>
      (\<exists>rs. map (load_single E self) files = map Inr rs
           \<and> out = Multiple (map fst rs)
           \<and> self' = self\<lparr>self_confounds := Some (Multiple (map fst rs)),
                           self_columns := Some (Multiple (map snd rs))\<rparr>)"
    by (auto simp: load_def and_then_Inr_iff load_loop_Inr Let_def)
next
  show "load E self (Single src) = Inr (out, self') \<longleftrightarrow>
      (\<exists>conf col. load_single E self src = Inr (conf, col)
           \<and> out = Single conf
           \<and> self' = self\<lparr>self_confounds := Some (Single conf),
                           self_columns := Some (Single col)\<rparr>)"
    by (auto simp: load_def and_then_Inr_iff load_loop_Inr Cons_eq_map_conv Let_def)
qed


theorem C9_witness:
  "load sample_env (sample_obj [''high_pass''])
       (Multiple [Path sample_path, Path ''missing.tsv'', Path sample_path])
     = Inl (LibraryError ''FileNotFoundError'')
   \<and> (\<exists>m l. load_single sample_env (sample_obj [''high_pass'']) (Path sample_path) = Inr (m, l)
        \<and> load sample_env (sample_obj [''high_pass'']) (Multiple [Path sample_path, Path sample_path])
            = Inr (Multiple [m, m],
                   (sample_obj [''high_pass''])\<lparr>self_confounds := Some (Multiple [m, m]),
                                                  self_columns := Some (Multiple [l, l])\<rparr>)
        \<and> load sample_env (sample_obj [''high_pass'']) (Single (Path sample_path))
            = Inr (Single m,
                   (sample_obj [''high_pass''])\<lparr>self_confounds := Some (Single m),
                                                  self_columns := Some (Single l)\<rparr>))"
proof
  show "load sample_env (sample_obj [''high_pass''])
       (Multiple [Path sample_path, Path ''missing.tsv'', Path sample_path])
     = Inl (LibraryError ''FileNotFoundError'')"
    by code_simp
next
  define m where "m = \<lparr>shape0 = 4, cols = [[Num 1, Num 0, Num (- 1), Num 0],
                                              [Num 1, Num (- 1), Num 1, Num (- 1)]]\<rparr>"
  define l where "l = [''cosine00'', ''cosine01'']"
  have one: "load_single sample_env (sample_obj [''high_pass'']) (Path sample_path) = Inr (m, l)"
    unfolding m_def l_def by code_simp
  have ex2: "\<exists>rs. map (load_single sample_env (sample_obj [''high_pass'']))
                    [Path sample_path, Path sample_path] = map Inr rs
            \<and> Multiple [m, m] = Multiple (map fst rs)
            \<and> (sample_obj [''high_pass''])\<lparr>self_confounds := Some (Multiple [m, m]),
                                              self_columns := Some (Multiple [l, l])\<rparr>
               = (sample_obj [''high_pass''])\<lparr>self_confounds := Some (Multiple (map fst rs)),
                                                self_columns := Some (Multiple (map snd rs))\<rparr>"
    by (rule exI[of _ "[(m, l), (m, l)]"]) (simp add: one)
  have ex1: "\<exists>conf col. load_single sample_env (sample_obj [''high_pass'']) (Path sample_path)
               = Inr (conf, col)
            \<and> Single m = Single conf
            \<and> (sample_obj [''high_pass''])\<lparr>self_confounds := Some (Single m),
                                              self_columns := Some (Single l)\<rparr>
               = (sample_obj [''high_pass''])\<lparr>self_confounds := Some (Single conf),
                                                self_columns := Some (Single col)\<rparr>"
    using one by blast
  have "load sample_env (sample_obj [''high_pass'']) (Multiple [Path sample_path, Path sample_path])
            = Inr (Multiple [m, m],
                   (sample_obj [''high_pass''])\<lparr>self_confounds := Some (Multiple [m, m]),
                                                  self_columns := Some (Multiple [l, l])\<rparr>)"
    by (rule C9_load_mirrors_arity[THEN conjunct1, THEN iffD2, OF ex2])
  moreover have "load sample_env (sample_obj [''high_pass'']) (Single (Path sample_path))
            = Inr (Single m,
                   (sample_obj [''high_pass''])\<lparr>self_confounds := Some (Single m),
                                                  self_columns := Some (Single l)\<rparr>)"
    by (rule C9_load_mirrors_arity[THEN conjunct2, THEN iffD2, OF ex1])
  ultimately show "\<exists>m l. load_single sample_env (sample_obj [''high_pass'']) (Path sample_path) = Inr (m, l)
        \<and> load sample_env (sample_obj [''high_pass'']) (Multiple [Path sample_path, Path sample_path])
            = Inr (Multiple [m, m],
                   (sample_obj [''high_pass''])\<lparr>self_confounds := Some (Multiple [m, m]),
                                                  self_columns := Some (Multiple [l, l])\<rparr>)
        \<and> load sample_env (sample_obj [''high_pass'']) (Single (Path sample_path))
            = Inr (Single m,
                   (sample_obj [''high_pass''])\<lparr>self_confounds := Some (Single m),
                                                  self_columns := Some (Single l)\<rparr>)"
    using one by blast
qed

lemma load_single_strategy_set:
  "set s1 = set s2 \<Longrightarrow>
   load_single E (self\<lparr>self_strategy := s1\<rparr>) src = load_single E (self\<lparr>self_strategy := s2\<rparr>) src"
  by (simp add: load_single_def)

text \<open>
  C10. A strategy list and the same list without its repetitions are both accepted or both
  refused by validation, and \<^verbatim>\<open>_load_single\<close> gives the same result (matrix and labels,
  or the same exception) for both: each category is looked up by membership.
\<close>

theorem C10_duplicate_categories:
  "load_single E (self\<lparr>self_strategy := strategy\<rparr>) src
     = load_single E (self\<lparr>self_strategy := remdups strategy\<rparr>) src
   \<and> ((\<exists>r. sanitize_strategy (AsList strategy) = Inr r)
        \<longleftrightarrow> (\<exists>r. sanitize_strategy (AsList (remdups strategy)) = Inr r))"
  using load_single_strategy_set[of strategy "remdups strategy" E self src]
  by (auto simp: and_then_Inr_iff check_strategy_Inr)

theorem C10_witness:
  "load_single sample_env (sample_obj [''high_pass'', ''wm_csf'', ''high_pass'']) (Path sample_path)
     = load_single sample_env (sample_obj [''high_pass'', ''wm_csf'']) (Path sample_path)
   \<and> load_single sample_env (sample_obj [''high_pass'', ''wm_csf'']) (Path sample_path)
     = Inr (\<lparr>shape0 = 4,
             cols = [[Num 1, Num 0, Num (- 1), Num 0], [Num 1, Num (- 1), Num 1, Num (- 1)],
                     [Num 3, Num 4, Num 5, Num 4], [Num 6, Num 6, Num 7, Num 5]]\<rparr>,
            [''cosine00'', ''cosine01'', ''csf'', ''white_matter''])
   \<and> sanitize_strategy (AsList [''high_pass'', ''wm_csf'', ''high_pass''])
     = Inr [''high_pass'', ''wm_csf'', ''high_pass'']"
proof -
  have a: "(sample_obj [''wm_csf'', ''high_pass''])\<lparr>self_strategy := [''high_pass'', ''wm_csf'', ''high_pass'']\<rparr>
        = sample_obj [''high_pass'', ''wm_csf'', ''high_pass'']"
    by (simp add: sample_obj_def)
  have b: "(sample_obj [''wm_csf'', ''high_pass''])\<lparr>self_strategy := remdups [''high_pass'', ''wm_csf'', ''high_pass'']\<rparr>
        = sample_obj [''wm_csf'', ''high_pass'']"
    by (simp add: sample_obj_def)
  have c: "load_single sample_env (sample_obj [''wm_csf'', ''high_pass'']) (Path sample_path)
        = load_single sample_env (sample_obj [''high_pass'', ''wm_csf'']) (Path sample_path)"
    by code_simp
  have d: "load_single sample_env (sample_obj [''high_pass'', ''wm_csf'']) (Path sample_path)
     = Inr (\<lparr>shape0 = 4,
             cols = [[Num 1, Num 0, Num (- 1), Num 0], [Num 1, Num (- 1), Num 1, Num (- 1)],
                     [Num 3, Num 4, Num 5, Num 4], [Num 6, Num 6, Num 7, Num 5]]\<rparr>,
            [''cosine00'', ''cosine01'', ''csf'', ''white_matter''])"
    by code_simp
  have e: "sanitize_strategy (AsList [''high_pass'', ''wm_csf'', ''high_pass''])
     = Inr [''high_pass'', ''wm_csf'', ''high_pass'']"
    by (simp add: all_confounds_def)
  from C10_duplicate_categories[where E = sample_env and self = "sample_obj [''wm_csf'', ''high_pass'']"
         and strategy = "[''high_pass'', ''wm_csf'', ''high_pass'']" and src = "Path sample_path"]
  show ?thesis unfolding a b using c d e by simp
qed

section \<open>Censoring: facts\<close>

lemma np_unique_Nil [simp]: "np_unique [] = []"
  by (simp add: np_unique_def)

lemma np_sort_Nil [simp]: "np_sort [] = []"
  by (simp add: np_sort_def)

lemma optimize_censoring_empty: "optimize_censoring [] n_scans = Inl IndexError"
  by (simp add: optimize_censoring_def)

lemma load_censoring_quiet_optimized:
  assumes "getitem_col raw ''framewise_displacement'' = Inr fd"
    and "getitem_col raw ''std_dvars'' = Inr dvars"
    and "where_gt fd fd_thresh = []" and "where_gt dvars std_dvars_thresh = []"
  shows "load_censoring raw ''optimized'' fd_thresh std_dvars_thresh = Inl IndexError"
  using assms by (simp add: load_censoring_def optimize_censoring_empty)

lemma load_censoring_quiet_basic:
  assumes "getitem_col raw ''framewise_displacement'' = Inr fd"
    and "getitem_col raw ''std_dvars'' = Inr dvars"
    and "where_gt fd fd_thresh = []" and "where_gt dvars std_dvars_thresh = []"
  shows "load_censoring raw ''basic'' fd_thresh std_dvars_thresh
           = Inr \<lparr>n_index = n_index raw, items = []\<rparr>"
  using assms by (simp add: load_censoring_def)

text \<open>
  C2. On a table without outliers the optimized mode is to return no indicator column and
  not to fail. The code reads \<^verbatim>\<open>fd_outliers[0]\<close> of the empty array and raises
  \<^verbatim>\<open>IndexError\<close>; the basic mode on the same table returns a frame without columns.
\<close>

theorem C2_optimized_censoring_fails_without_outliers:
  "load_censoring quiet_table ''optimized'' (2 / 10) 3 = Inl IndexError
   \<and> load_censoring quiet_table ''basic'' (2 / 10) 3 = Inr \<lparr>n_index = 3, items = []\<rparr>"
proof -
  have fd: "getitem_col quiet_table ''framewise_displacement'' = Inr [NaN, Num (1 / 10), Num (15 / 100)]"
    by (simp add: getitem_col_def quiet_table_def)
  have dv: "getitem_col quiet_table ''std_dvars'' = Inr [NaN, Num 1, Num (12 / 10)]"
    by (simp add: getitem_col_def quiet_table_def)
  have w1: "where_gt [NaN, Num (1 / 10), Num (15 / 100)] (2 / 10) = []"
    by (simp add: where_gt_def upt_rec nth_Cons')
  have w2: "where_gt [NaN, Num 1, Num (12 / 10)] 3 = []"
    by (simp add: where_gt_def upt_rec nth_Cons')
  have n: "n_index quiet_table = 3"
    by (simp add: quiet_table_def)
  show ?thesis
    using load_censoring_quiet_optimized[OF fd dv w1 w2] load_censoring_quiet_basic[OF fd dv w1 w2]
    by (simp add: n)
qed

section \<open>Motion reduction: facts\<close>

lemma pca_motion_exceeded:
  "int (length (items confounds_motion)) < n_components \<Longrightarrow>
   pca_motion E confounds_motion n_components
     = Inl (ComponentCountExceeded n_components (int (length (items confounds_motion))))"
  by (simp add: pca_motion_def)

lemma map_shift_upt: "map (\<lambda>col. g (col + 1)) [0..<n] = map g [1..<n + 1]"
  by (induction n) simp_all

lemma pca_motion_labels:
  assumes "n_components \<le> int (length (items confounds_motion))"
    and "sk_scale E True True (to_values (dropna confounds_motion)) = Inr std"
    and "sk_pca E n_components std = Inr motion_pca"
  shows "\<exists>out. pca_motion E confounds_motion n_components = Inr out
           \<and> columns out = map (\<lambda>i. ''motion_pca_'' @ str_nat i) [1..<length (cols motion_pca) + 1]
           \<and> map snd (items out) = cols motion_pca
           \<and> n_index out = shape0 motion_pca"
proof -
  have shift: "map (\<lambda>col. ''motion_pca_'' @ str_nat (col + 1)) [0..<length (cols motion_pca)]
      = map (\<lambda>i. ''motion_pca_'' @ str_nat i) [1..<length (cols motion_pca) + 1]"
    by (rule map_shift_upt)
  have "pca_motion E confounds_motion n_components
      = Inr \<lparr>n_index = shape0 motion_pca,
             items = zip (map (\<lambda>col. ''motion_pca_'' @ str_nat (col + 1)) [0..<length (cols motion_pca)])
                         (cols motion_pca)\<rparr>"
    using assms by (simp add: pca_motion_def)
  moreover have "map fst (zip (map (\<lambda>col. ''motion_pca_'' @ str_nat (col + 1)) [0..<length (cols motion_pca)])
                         (cols motion_pca))
      = map (\<lambda>col. ''motion_pca_'' @ str_nat (col + 1)) [0..<length (cols motion_pca)]"
    by (rule map_fst_zip) simp
  moreover have "map snd (zip (map (\<lambda>col. ''motion_pca_'' @ str_nat (col + 1)) [0..<length (cols motion_pca)])
                         (cols motion_pca)) = cols motion_pca"
    by (rule map_snd_zip) simp
  ultimately show ?thesis
    unfolding shift by (simp add: columns_def)
qed

lemma length_items_dropna: "length (items (dropna df)) = length (items df)"
  by (simp add: dropna_def Let_def)

lemma complete_dropna: "complete (to_values (dropna df))"
  by (auto simp: complete_def to_values_def dropna_def Let_def list_all_iff)

lemma shape_dropna:
  "shape0 (to_values (dropna df)) = n_index (dropna df)
   \<and> length (cols (to_values (dropna df))) = length (items df)"
  by (simp add: to_values_def length_items_dropna)

lemma pca_motion_enough_rows:
  assumes E: "sklearn_shapes E"
    and k: "1 \<le> length (items block)" "length (items block) \<le> n_index (dropna block)"
  shows "\<exists>out. pca_motion E block (int (length (items block))) = Inr out
           \<and> columns out = map (\<lambda>i. ''motion_pca_'' @ str_nat i) [1..<length (items block) + 1]
           \<and> length (items out) = length (items block)
           \<and> n_index out = n_index (dropna block)"
proof -
  let ?a = "to_values (dropna block)"
  let ?k = "length (items block)"
  have sh: "shape0 ?a = n_index (dropna block)" "length (cols ?a) = ?k"
    using shape_dropna[of block] by simp_all
  have ca: "complete ?a" by (rule complete_dropna)
  have "1 \<le> shape0 ?a \<and> cols ?a \<noteq> [] \<and> complete ?a"
    using sh k ca by auto
  with E obtain std where std: "sk_scale E True True ?a = Inr std"
    unfolding sklearn_shapes_def by blast
  with E have s2: "shape0 std = shape0 ?a" "length (cols std) = length (cols ?a)" "complete std"
    using ca unfolding sklearn_shapes_def by blast+
  have "1 \<le> int ?k \<and> int ?k \<le> int (min (shape0 std) (length (cols std))) \<and> complete std"
    using s2 sh k by simp
  with E obtain comps where comps: "sk_pca E (int ?k) std = Inr comps"
    "shape0 comps = shape0 std" "int (length (cols comps)) = int ?k"
    unfolding sklearn_shapes_def by blast
  from pca_motion_labels[OF _ std comps(1)] obtain out where
    out: "pca_motion E block (int ?k) = Inr out"
      "columns out = map (\<lambda>i. ''motion_pca_'' @ str_nat i) [1..<length (cols comps) + 1]"
      "map snd (items out) = cols comps" "n_index out = shape0 comps"
    by auto
  have "length (items out) = length (cols comps)"
    using out(3) by (metis length_map)
  with out comps s2 sh show ?thesis by simp
qed

lemma pca_motion_too_few_rows:
  assumes E: "sklearn_shapes E"
    and k: "n_index (dropna block) < length (items block)"
  shows "\<exists>e. pca_motion E block (int (length (items block))) = Inl e"
proof (cases "sk_scale E True True (to_values (dropna block))")
  case (Inl e)
  then show ?thesis by (simp add: pca_motion_def)
next
  case (Inr std)
  with E have "shape0 std = shape0 (to_values (dropna block))"
    "length (cols std) = length (cols (to_values (dropna block)))"
    unfolding sklearn_shapes_def by blast+
  then have "int (min (shape0 std) (length (cols std))) < int (length (items block))"
    using k shape_dropna[of block] by simp
  with E obtain e where "sk_pca E (int (length (items block))) std = Inl e"
    unfolding sklearn_shapes_def by blast
  with Inr show ?thesis by (simp add: pca_motion_def)
qed

lemma load_motion_reduces:
  assumes "add_suffix E [''trans_x'', ''trans_y'', ''trans_z'', ''rot_x'', ''rot_y'', ''rot_z''] motion
          = Inr motion_params"
    and "set motion_params \<subseteq> set (columns raw)" and "distinct (columns raw)"
  shows "\<exists>confounds_motion. getitem_cols raw motion_params = Inr confounds_motion
           \<and> columns confounds_motion = motion_params
           \<and> (\<forall>n. 0 < n \<longrightarrow> load_motion E raw motion n = pca_motion E confounds_motion n)
           \<and> load_motion E raw motion 0 = Inr confounds_motion"
proof -
  from assms obtain confounds_motion where b: "getitem_cols raw motion_params = Inr confounds_motion"
      "columns confounds_motion = motion_params"
    using getitem_cols_columns[of raw motion_params] by blast
  have chk: "check_params raw motion_params = Inr ()"
    using assms by (simp add: check_params_Inr)
  have "load_motion E raw motion n = pca_motion E confounds_motion n" if "0 < n" for n
    using assms(1) b chk that by (simp add: load_motion_def)
  moreover have "load_motion E raw motion 0 = Inr confounds_motion"
    using assms(1) b chk by (simp add: load_motion_def)
  ultimately show ?thesis using b by blast
qed

lemma centre_complete: "NaN \<notin> set c \<Longrightarrow> NaN \<notin> set (centre c)"
  by (auto simp: centre_def Let_def split: cell.splits)

lemma sklearn_shapes_sample: "sklearn_shapes sample_env"
proof -
  have a: "shape0 a' = shape0 a \<and> length (cols a') = length (cols a)
          \<and> (complete a \<longrightarrow> complete a')"
    if "sk_scale sample_env with_mean with_std a = Inr a'" for with_mean with_std a a'
    using that
    by (auto simp: sample_env_def complete_def list_all_iff centre_complete split: if_splits)
  have b: "\<exists>a'. sk_scale sample_env with_mean with_std a = Inr a'"
    if "1 \<le> shape0 a \<and> cols a \<noteq> [] \<and> complete a" for with_mean with_std a
    using that by (simp add: sample_env_def)
  have c: "\<exists>c. sk_pca sample_env n a = Inr c \<and> shape0 c = shape0 a \<and> int (length (cols c)) = n"
    if "1 \<le> n \<and> n \<le> int (min (shape0 a) (length (cols a))) \<and> complete a" for n a
    using that by (auto simp: sample_env_def)
  have d: "\<exists>e. sk_pca sample_env n a = Inl e"
    if "int (min (shape0 a) (length (cols a))) < n" for n a
    using that by (simp add: sample_env_def)
  show ?thesis
    unfolding sklearn_shapes_def using a b c d by blast
qed

text \<open>
  C6 as stated: a request for as many components as the block has columns succeeds for
  every block. The six motion columns of a table of four rows, asked for six components,
  pass the module's check and fail in the decomposition, which cannot give more
  components than there are rows.
\<close>

theorem C6_few_rows_counterexample:
  "length (items sample_motion) = 6
   \<and> getitem_cols sample_table [''trans_x'', ''trans_y'', ''trans_z'', ''rot_x'', ''rot_y'', ''rot_z'']
       = Inr sample_motion
   \<and> pca_motion sample_env sample_motion 6 = Inl (LibraryError ''ValueError'')
   \<and> load_motion sample_env sample_table ''basic'' 6 = Inl (LibraryError ''ValueError'')"
proof (intro conjI)
  show "length (items sample_motion) = 6"
    by (simp add: sample_motion_def)
  show "getitem_cols sample_table [''trans_x'', ''trans_y'', ''trans_z'', ''rot_x'', ''rot_y'', ''rot_z'']
       = Inr sample_motion"
    by code_simp
  show "pca_motion sample_env sample_motion 6 = Inl (LibraryError ''ValueError'')"
    by code_simp
  show "load_motion sample_env sample_table ''basic'' 6 = Inl (LibraryError ''ValueError'')"
    by code_simp
qed

text \<open>
  C6, as amended. \<^verbatim>\<open>_pca_motion\<close> on a block of \<open>k\<close> columns: asked for \<open>k + 1\<close>
  components it raises the ComponentCountExceeded error and returns nothing. Asked for
  \<open>k\<close>, with \<open>k \<ge> 1\<close> and the library behaving as documented, it succeeds when the block
  has at least \<open>k\<close> rows without a missing value, and then returns \<open>k\<close> columns labelled
  \<open>motion_pca_1\<close> to \<open>motion_pca_k\<close> over these rows; with fewer such rows it raises.
  \<^verbatim>\<open>_load_motion\<close> with a positive \<open>n_motion\<close> is \<^verbatim>\<open>_pca_motion\<close> on the block of the
  expanded motion parameters, so a request for one more component than these fails with
  ComponentCountExceeded.
\<close>

theorem C6_motion_reducer:
  "pca_motion E block (int (length (items block)) + 1)
     = Inl (ComponentCountExceeded (int (length (items block)) + 1) (int (length (items block))))
   \<and> (sklearn_shapes E \<and> 1 \<le> length (items block)
        \<and> length (items block) \<le> n_index (dropna block) \<longrightarrow>
      (\<exists>out. pca_motion E block (int (length (items block))) = Inr out
           \<and> columns out = map (\<lambda>i. ''motion_pca_'' @ str_nat i) [1..<length (items block) + 1]
           \<and> length (items out) = length (items block)
           \<and> n_index out = n_index (dropna block)))
   \<and> (sklearn_shapes E \<and> n_index (dropna block) < length (items block) \<longrightarrow>
      (\<exists>e. pca_motion E block (int (length (items block))) = Inl e))
   \<and> (add_suffix E [''trans_x'', ''trans_y'', ''trans_z'', ''rot_x'', ''rot_y'', ''rot_z''] motion
          = Inr motion_params
        \<and> set motion_params \<subseteq> set (columns raw) \<and> distinct (columns raw) \<longrightarrow>
      (\<exists>confounds_motion. getitem_cols raw motion_params = Inr confounds_motion
           \<and> columns confounds_motion = motion_params
           \<and> (\<forall>n. 0 < n \<longrightarrow> load_motion E raw motion n = pca_motion E confounds_motion n)
           \<and> load_motion E raw motion (int (length motion_params) + 1)
               = Inl (ComponentCountExceeded (int (length motion_params) + 1)
                        (int (length motion_params)))))"
proof (intro conjI impI)
  show "pca_motion E block (int (length (items block)) + 1)
     = Inl (ComponentCountExceeded (int (length (items block)) + 1) (int (length (items block))))"
    by (rule pca_motion_exceeded) simp
next
  assume "sklearn_shapes E \<and> 1 \<le> length (items block)
        \<and> length (items block) \<le> n_index (dropna block)"
  then show "\<exists>out. pca_motion E block (int (length (items block))) = Inr out
           \<and> columns out = map (\<lambda>i. ''motion_pca_'' @ str_nat i) [1..<length (items block) + 1]
           \<and> length (items out) = length (items block)
           \<and> n_index out = n_index (dropna block)"
    using pca_motion_enough_rows[of E block] by blast
next
  assume "sklearn_shapes E \<and> n_index (dropna block) < length (items block)"
  then show "\<exists>e. pca_motion E block (int (length (items block))) = Inl e"
    using pca_motion_too_few_rows[of E block] by blast
next
  assume h: "add_suffix E [''trans_x'', ''trans_y'', ''trans_z'', ''rot_x'', ''rot_y'', ''rot_z''] motion
          = Inr motion_params
        \<and> set motion_params \<subseteq> set (columns raw) \<and> distinct (columns raw)"
  then obtain confounds_motion where
    b: "getitem_cols raw motion_params = Inr confounds_motion"
       "columns confounds_motion = motion_params"
       "\<forall>n. 0 < n \<longrightarrow> load_motion E raw motion n = pca_motion E confounds_motion n"
    using load_motion_reduces[of E motion motion_params raw] by blast
  have len: "length (items confounds_motion) = length motion_params"
    using b(2) by (metis columns_def length_map)
  have "load_motion E raw motion (int (length motion_params) + 1)
      = pca_motion E confounds_motion (int (length motion_params) + 1)"
    using b(3) by simp
  also have "\<dots> = Inl (ComponentCountExceeded (int (length motion_params) + 1)
                         (int (length (items confounds_motion))))"
    by (rule pca_motion_exceeded) (simp add: len)
  finally have "load_motion E raw motion (int (length motion_params) + 1)
        = Inl (ComponentCountExceeded (int (length motion_params) + 1) (int (length motion_params)))"
    by (simp add: len)
  with b show "\<exists>confounds_motion. getitem_cols raw motion_params = Inr confounds_motion
           \<and> columns confounds_motion = motion_params
           \<and> (\<forall>n. 0 < n \<longrightarrow> load_motion E raw motion n = pca_motion E confounds_motion n)
           \<and> load_motion E raw motion (int (length motion_params) + 1)
               = Inl (ComponentCountExceeded (int (length motion_params) + 1)
                        (int (length motion_params)))"
    by blast
qed

theorem C6_witness:
  "sklearn_shapes sample_env
   \<and> length (items sample_block) = 2 \<and> n_index (dropna sample_block) = 4
   \<and> pca_motion sample_env sample_block 3 = Inl (ComponentCountExceeded 3 2)
   \<and> (\<exists>out. pca_motion sample_env sample_block 2 = Inr out
          \<and> columns out = [''motion_pca_1'', ''motion_pca_2'']
          \<and> length (items out) = 2 \<and> n_index out = 4)
   \<and> n_index (dropna sample_motion) = 4
   \<and> (\<exists>e. pca_motion sample_env sample_motion 6 = Inl e)
   \<and> load_motion sample_env sample_table ''basic'' 7 = Inl (ComponentCountExceeded 7 6)"
proof -
  have k: "int (length (items sample_block)) = 2" "length (items sample_block) = 2"
    by (simp_all add: sample_block_def)
  have r: "n_index (dropna sample_block) = 4"
    by code_simp
  have k6: "int (length (items sample_motion)) = 6" "length (items sample_motion) = 6"
    by (simp_all add: sample_motion_def)
  have r6: "n_index (dropna sample_motion) = 4"
    by code_simp
  have lab: "map (\<lambda>i. ''motion_pca_'' @ str_nat i) [1..<2 + 1] = [''motion_pca_1'', ''motion_pca_2'']"
    by code_simp
  have sfx: "add_suffix sample_env [''trans_x'', ''trans_y'', ''trans_z'', ''rot_x'', ''rot_y'', ''rot_z'']
        ''basic'' = Inr [''trans_x'', ''trans_y'', ''trans_z'', ''rot_x'', ''rot_y'', ''rot_z'']"
    by (simp add: add_suffix_def suffix_of_def)
  have present: "set [''trans_x'', ''trans_y'', ''trans_z'', ''rot_x'', ''rot_y'', ''rot_z'']
        \<subseteq> set (columns sample_table) \<and> distinct (columns sample_table)"
    by (simp add: columns_def sample_table_def)
  note E = sklearn_shapes_sample
  from C6_motion_reducer[of sample_env sample_block "''basic''"
         "[''trans_x'', ''trans_y'', ''trans_z'', ''rot_x'', ''rot_y'', ''rot_z'']" sample_table]
  have a: "pca_motion sample_env sample_block 3 = Inl (ComponentCountExceeded 3 2)"
    and b: "\<exists>out. pca_motion sample_env sample_block 2 = Inr out
          \<and> columns out = [''motion_pca_1'', ''motion_pca_2'']
          \<and> length (items out) = 2 \<and> n_index out = 4"
    and c: "load_motion sample_env sample_table ''basic'' 7 = Inl (ComponentCountExceeded 7 6)"
    unfolding k r using E lab sfx present by auto
  from C6_motion_reducer[of sample_env sample_motion]
  have d: "\<exists>e. pca_motion sample_env sample_motion 6 = Inl e"
    unfolding k6 r6 using E by simp
  from E k r a b r6 d c show ?thesis by blast
qed

section \<open>Anatomical and temporal compcor: facts\<close>

lemma py_eq_MaskStr: "py_eq m (MaskStr s) \<longleftrightarrow> m = JStr s"
  by (cases m) auto

lemma label_loop_temporal:
  "label_loop cj ''t'' m ns acc = Inr (acc @ map (compcor_name ''t'') ns)"
  by (induction ns arbitrary: acc) simp_all

lemma label_loop_anatomical_Inr:
  "label_loop cj ''a'' (MaskStr s) ns acc = Inr r \<Longrightarrow>
   r = acc @ filter (has_mask cj s) (map (compcor_name ''a'') ns)"
proof (induction ns arbitrary: acc)
  case Nil
  then show ?case by simp
next
  case (Cons n ns)
  show ?case
  proof (cases "mask_of cj (compcor_name ''a'' n)")
    case (Inl e)
    with Cons.prems show ?thesis by simp
  next
    case (Inr m)
    show ?thesis
    proof (cases "m = JStr s")
      case True
      with Cons.prems Inr
      have "label_loop cj ''a'' (MaskStr s) ns (acc @ [compcor_name ''a'' n]) = Inr r"
        by simp
      from Cons.IH[OF this] True Inr show ?thesis
        by (simp add: has_mask_def)
    next
      case False
      with Cons.prems Inr
      have "label_loop cj ''a'' (MaskStr s) ns acc = Inr r"
        by (simp add: py_eq_MaskStr)
      from Cons.IH[OF this] False Inr show ?thesis
        by (simp add: has_mask_def)
    qed
  qed
qed

lemma label_loop_anatomical_total:
  "\<forall>n\<in>set ns. \<exists>m. mask_of cj (compcor_name ''a'' n) = Inr m \<Longrightarrow>
   label_loop cj ''a'' (MaskStr s) ns acc
     = Inr (acc @ filter (has_mask cj s) (map (compcor_name ''a'') ns))"
proof (induction ns arbitrary: acc)
  case Nil
  then show ?case by simp
next
  case (Cons n ns)
  then obtain m where m: "mask_of cj (compcor_name ''a'' n) = Inr m" by auto
  from Cons have "\<forall>n\<in>set ns. \<exists>m. mask_of cj (compcor_name ''a'' n) = Inr m" by simp
  then show ?case
    using Cons.IH m by (simp add: has_mask_def py_eq_MaskStr)
qed

lemma label_compcor_anatomical_Inr:
  "label_compcor cj ''a'' n (MaskStr s) = Inr r \<Longrightarrow>
   r = filter (has_mask cj s) (enumerated cj ''a'')"
  unfolding label_compcor_def Let_def and_then_Inr_iff enumerated_def
  by (auto dest!: label_loop_anatomical_Inr select_compcor_Inr)

lemma label_compcor_anatomical_total:
  assumes "\<forall>c\<in>set (enumerated cj ''a''). \<exists>m. mask_of cj c = Inr m"
    and "n = Auto \<or> (\<exists>k. n = Count k \<and> int (length (enumerated cj ''a'')) \<le> k)"
  shows "label_compcor cj ''a'' n (MaskStr s) = Inr (filter (has_mask cj s) (enumerated cj ''a''))"
proof -
  let ?ns = "[0..<length (filter (\<lambda>comp. sublist (''a'' @ ''_comp_cor'') comp) (map fst cj))]"
  have "\<forall>n\<in>set ?ns. \<exists>m. mask_of cj (compcor_name ''a'' n) = Inr m"
    using assms(1) by (simp add: enumerated_def)
  then have loop: "label_loop cj ''a'' (MaskStr s) ?ns []
      = Inr (filter (has_mask cj s) (enumerated cj ''a''))"
    using label_loop_anatomical_total[of ?ns cj s "[]"] by (simp add: enumerated_def)
  have le: "int (length (filter (has_mask cj s) (enumerated cj ''a'')))
      \<le> int (length (enumerated cj ''a''))"
    by simp
  have "select_compcor (filter (has_mask cj s) (enumerated cj ''a'')) n (MaskStr s)
      = Inr (filter (has_mask cj s) (enumerated cj ''a''))"
  proof (cases n)
    case Auto
    then show ?thesis by (simp add: select_compcor_Auto)
  next
    case (Count k)
    with assms(2) have "int (length (enumerated cj ''a'')) \<le> k" by simp
    with le have "int (length (filter (has_mask cj s) (enumerated cj ''a''))) \<le> k"
      by (rule order_trans)
    then show ?thesis unfolding Count by (rule select_compcor_enough)
  qed
  then show ?thesis
    using loop by (simp add: label_compcor_def Let_def)
qed

lemma label_compcor_temporal:
  "label_compcor cj ''t'' n m = select_compcor (enumerated cj ''t'') n m"
  by (simp add: label_compcor_def Let_def label_loop_temporal enumerated_def)

lemma select_compcor_mask: "select_compcor c n m = select_compcor c n m'"
  by (simp add: select_compcor_def)

lemma wm_before_csf:
  assumes "\<forall>c\<in>set A. has_mask cj ''WM'' c" and "\<forall>c\<in>set B. has_mask cj ''CSF'' c"
    and "i < length (A @ B)" and "j < length (A @ B)"
    and "has_mask cj ''WM'' ((A @ B) ! i)" and "has_mask cj ''CSF'' ((A @ B) ! j)"
  shows "i < j"
proof -
  have "i < length A"
  proof (rule ccontr)
    assume "\<not> i < length A"
    then have "(A @ B) ! i \<in> set B" using assms(3) by (simp add: nth_append)
    then have "has_mask cj ''CSF'' ((A @ B) ! i)" using assms(2) by blast
    with assms(5) show False by (simp add: has_mask_def)
  qed
  moreover have "\<not> j < length A"
  proof
    assume "j < length A"
    then have "(A @ B) ! j \<in> set A" by (simp add: nth_append)
    then have "has_mask cj ''WM'' ((A @ B) ! j)" using assms(1) by blast
    with assms(6) show False by (simp add: has_mask_def)
  qed
  ultimately show ?thesis by simp
qed

text \<open>
  C5. \<^verbatim>\<open>_load_acompcor\<close>, whenever it returns: with \<open>acompcor_combined = True\<close> the
  result is the enumerated anatomical columns whose sidecar mask is \<open>combined\<close> and nothing
  else; with \<open>False\<close> it is the columns with mask \<open>WM\<close> followed by those with mask
  \<open>CSF\<close>, so every returned WM component stands before every returned CSF component. It
  does return when every enumerated column has a mask in the sidecar and no truncation is
  asked for. The temporal selection never reads the sidecar's masks: it is
  \<^verbatim>\<open>_select_compcor\<close> on all enumerated temporal columns, whatever the mask argument.
\<close>

theorem C5_compcor_masks:
  "(load_acompcor cj n True = Inr compcor_cols \<longrightarrow>
      compcor_cols = filter (has_mask cj ''combined'') (enumerated cj ''a'')
      \<and> (\<forall>c\<in>set compcor_cols. mask_of cj c = Inr (JStr ''combined'')))
   \<and> (load_acompcor cj n False = Inr compcor_cols \<longrightarrow>
      compcor_cols = filter (has_mask cj ''WM'') (enumerated cj ''a'')
                     @ filter (has_mask cj ''CSF'') (enumerated cj ''a'')
      \<and> (\<forall>i j. i < length compcor_cols \<and> j < length compcor_cols
             \<and> has_mask cj ''WM'' (compcor_cols ! i) \<and> has_mask cj ''CSF'' (compcor_cols ! j)
             \<longrightarrow> i < j))
   \<and> ((\<forall>c\<in>set (enumerated cj ''a''). \<exists>m. mask_of cj c = Inr m)
        \<and> (n = Auto \<or> (\<exists>k. n = Count k \<and> int (length (enumerated cj ''a'')) \<le> k)) \<longrightarrow>
      (\<exists>r. load_acompcor cj n acompcor_combined = Inr r))
   \<and> label_compcor cj ''t'' n m = select_compcor (enumerated cj ''t'') n m
   \<and> label_compcor cj ''t'' n m = label_compcor cj ''t'' n m'
   \<and> label_compcor cj ''t'' Auto m = Inr (enumerated cj ''t'')"
proof (intro conjI impI)
  assume "load_acompcor cj n True = Inr compcor_cols"
  then have "label_compcor cj ''a'' n (MaskStr ''combined'') = Inr compcor_cols"
    by (simp add: load_acompcor_def)
  then show c: "compcor_cols = filter (has_mask cj ''combined'') (enumerated cj ''a'')"
    by (rule label_compcor_anatomical_Inr)
  show "\<forall>c\<in>set compcor_cols. mask_of cj c = Inr (JStr ''combined'')"
    unfolding c by (simp add: has_mask_def)
next
  assume h: "load_acompcor cj n False = Inr compcor_cols"
  then obtain wm csf where wm: "label_compcor cj ''a'' n (MaskStr ''WM'') = Inr wm"
    and csf: "label_compcor cj ''a'' n (MaskStr ''CSF'') = Inr csf"
    and cc: "compcor_cols = wm @ csf"
    by (auto simp: load_acompcor_def and_then_Inr_iff)
  have wm': "wm = filter (has_mask cj ''WM'') (enumerated cj ''a'')"
    using wm by (rule label_compcor_anatomical_Inr)
  have csf': "csf = filter (has_mask cj ''CSF'') (enumerated cj ''a'')"
    using csf by (rule label_compcor_anatomical_Inr)
  show "compcor_cols = filter (has_mask cj ''WM'') (enumerated cj ''a'')
                     @ filter (has_mask cj ''CSF'') (enumerated cj ''a'')"
    by (simp add: cc wm' csf')
  have a: "\<forall>c\<in>set wm. has_mask cj ''WM'' c" by (simp add: wm')
  have b: "\<forall>c\<in>set csf. has_mask cj ''CSF'' c" by (simp add: csf')
  show "\<forall>i j. i < length compcor_cols \<and> j < length compcor_cols
             \<and> has_mask cj ''WM'' (compcor_cols ! i) \<and> has_mask cj ''CSF'' (compcor_cols ! j)
             \<longrightarrow> i < j"
    unfolding cc using wm_before_csf[OF a b] by blast
next
  assume h: "(\<forall>c\<in>set (enumerated cj ''a''). \<exists>m. mask_of cj c = Inr m)
        \<and> (n = Auto \<or> (\<exists>k. n = Count k \<and> int (length (enumerated cj ''a'')) \<le> k))"
  then show "\<exists>r. load_acompcor cj n acompcor_combined = Inr r"
    by (simp add: load_acompcor_def label_compcor_anatomical_total)
next
  show "label_compcor cj ''t'' n m = select_compcor (enumerated cj ''t'') n m"
    by (rule label_compcor_temporal)
next
  show "label_compcor cj ''t'' n m = label_compcor cj ''t'' n m'"
    unfolding label_compcor_temporal by (rule select_compcor_mask)
next
  show "label_compcor cj ''t'' Auto m = Inr (enumerated cj ''t'')"
    unfolding label_compcor_temporal by (rule select_compcor_Auto)
qed

theorem C5_witness:
  "load_acompcor sample_sidecar Auto True = Inr [''a_comp_cor_00'']
   \<and> mask_of sample_sidecar ''a_comp_cor_00'' = Inr (JStr ''combined'')
   \<and> load_acompcor sample_sidecar Auto False = Inr [''a_comp_cor_02'', ''a_comp_cor_01'']
   \<and> has_mask sample_sidecar ''WM'' ''a_comp_cor_02''
   \<and> has_mask sample_sidecar ''CSF'' ''a_comp_cor_01''
   \<and> label_compcor sample_sidecar ''t'' Auto (MaskBool True) = Inr [''t_comp_cor_00'']"
proof -
  have en: "enumerated sample_sidecar ''a'' = [''a_comp_cor_00'', ''a_comp_cor_01'', ''a_comp_cor_02'']"
    by code_simp
  have et: "enumerated sample_sidecar ''t'' = [''t_comp_cor_00'']"
    by code_simp
  have m0: "mask_of sample_sidecar ''a_comp_cor_00'' = Inr (JStr ''combined'')"
    and m1: "mask_of sample_sidecar ''a_comp_cor_01'' = Inr (JStr ''CSF'')"
    and m2: "mask_of sample_sidecar ''a_comp_cor_02'' = Inr (JStr ''WM'')"
    by (simp_all add: mask_of_def sample_sidecar_def)
  have pre: "(\<forall>c\<in>set (enumerated sample_sidecar ''a''). \<exists>m. mask_of sample_sidecar c = Inr m)
        \<and> (Auto = Auto \<or> (\<exists>k. Auto = Count k \<and> int (length (enumerated sample_sidecar ''a'')) \<le> k))"
    by (simp add: en m0 m1 m2)
  note inst = C5_compcor_masks[of sample_sidecar Auto]
  obtain r where r: "load_acompcor sample_sidecar Auto True = Inr r"
    using inst[where acompcor_combined = True] pre by blast
  obtain r' where r': "load_acompcor sample_sidecar Auto False = Inr r'"
    using inst[where acompcor_combined = False] pre by blast
  have "r = [''a_comp_cor_00'']"
    using inst[of r] r by (simp add: en has_mask_def m0 m1 m2)
  moreover have "r' = [''a_comp_cor_02'', ''a_comp_cor_01'']"
    using inst[of r'] r' by (simp add: en has_mask_def m0 m1 m2)
  moreover have "label_compcor sample_sidecar ''t'' Auto (MaskBool True) = Inr [''t_comp_cor_00'']"
    using inst[where m = "MaskBool True"] by (simp add: et select_compcor_Auto)
  ultimately show ?thesis
    using r r' by (simp add: has_mask_def m0 m1 m2)
qed

section \<open>Assembly: facts\<close>

lemma load_single_run_blocks:
  "load_single E self src =
     and_then (read_confounds E src) (\<lambda>(confounds_raw, confounds_json).
     and_then (run_blocks empty_frame
                 (map (\<lambda>category. (category \<in> set (self_strategy self),
                                    load_category E self confounds_raw confounds_json category))
                      category_order)) (\<lambda>confounds.
       confounds_to_ndarray E confounds (self_demean self)))"
proof (cases "read_confounds E src")
  case (Inl e)
  then show ?thesis by (simp add: load_single_def)
next
  case (Inr r)
  obtain confounds_raw confounds_json where r: "r = (confounds_raw, confounds_json)"
    by (cases r)
  show ?thesis
    unfolding load_single_def Inr r category_order_def
    by (simp add: load_category_def and_then_def split: sum.splits)
qed

lemma run_blocks_Inr:
  "run_blocks acc steps = Inr r \<longleftrightarrow>
   (\<exists>blocks. map snd (filter fst steps) = map Inr blocks \<and> r = foldl pd_concat acc blocks)"
proof (induction steps arbitrary: acc)
  case Nil
  then show ?case by auto
next
  case (Cons st steps)
  obtain active loaded where st: "st = (active, loaded)" by (cases st)
  show ?case
  proof (cases active)
    case False
    then show ?thesis by (simp add: st add_block_def Cons.IH)
  next
    case True
    show ?thesis
    proof (cases loaded)
      case (Inl e)
      then show ?thesis by (auto simp: st True add_block_def map_eq_Cons_conv)
    next
      case (Inr b)
      have "run_blocks acc (st # steps) = Inr r \<longleftrightarrow>
          (\<exists>blocks. map snd (filter fst steps) = map Inr blocks
                 \<and> r = foldl pd_concat (pd_concat acc b) blocks)"
        by (simp add: st True Inr add_block_def Cons.IH)
      also have "\<dots> \<longleftrightarrow> (\<exists>blocks. map snd (filter fst (st # steps)) = map Inr blocks
                 \<and> r = foldl pd_concat acc blocks)"
      proof
        assume "\<exists>blocks. map snd (filter fst steps) = map Inr blocks
                 \<and> r = foldl pd_concat (pd_concat acc b) blocks"
        then obtain blocks where "map snd (filter fst steps) = map Inr blocks"
          "r = foldl pd_concat (pd_concat acc b) blocks" by blast
        then have "map snd (filter fst (st # steps)) = map Inr (b # blocks)
                 \<and> r = foldl pd_concat acc (b # blocks)"
          by (simp add: st True Inr)
        then show "\<exists>blocks. map snd (filter fst (st # steps)) = map Inr blocks
                 \<and> r = foldl pd_concat acc blocks" by blast
      next
        assume "\<exists>blocks. map snd (filter fst (st # steps)) = map Inr blocks
                 \<and> r = foldl pd_concat acc blocks"
        then obtain blocks where bl: "map snd (filter fst (st # steps)) = map Inr blocks"
          "r = foldl pd_concat acc blocks" by blast
        then obtain b' blocks' where c: "blocks = b' # blocks'"
          by (cases blocks) (auto simp: st True)
        with bl have "b' = b" "map snd (filter fst steps) = map Inr blocks'"
          by (auto simp: st True Inr)
        with bl c show "\<exists>blocks. map snd (filter fst steps) = map Inr blocks
                 \<and> r = foldl pd_concat (pd_concat acc b) blocks"
          by auto
      qed
      finally show ?thesis .
    qed
  qed
qed

lemma steps_active:
  "map snd (filter fst (map (\<lambda>c. (act c, ld c)) cs)) = map ld (filter act cs)"
  by (induction cs) simp_all

lemma pad_pad: "m \<le> n \<Longrightarrow> pad n (pad m c) = pad n c"
  by (cases "length c \<le> m") (simp_all add: pad_def replicate_add[symmetric])

lemma foldl_max_ge: "(a::nat) \<le> foldl max a xs"
proof (induction xs arbitrary: a)
  case Nil
  then show ?case by simp
next
  case (Cons x xs)
  have "a \<le> max a x" by simp
  also have "\<dots> \<le> foldl max (max a x) xs" by (rule Cons.IH)
  finally show ?case by simp
qed

lemma pad_long: "n \<le> length c \<Longrightarrow> pad n c = c"
  by (simp add: pad_def)

lemma length_pad: "n \<le> length (pad n c)"
  by (simp add: pad_def)

lemma foldl_pd_concat:
  assumes "\<forall>it\<in>set (items acc). n_index acc \<le> length (snd it)"
  shows "n_index (foldl pd_concat acc blocks) = foldl max (n_index acc) (map n_index blocks)
   \<and> items (foldl pd_concat acc blocks)
       = map (\<lambda>it. (fst it, pad (foldl max (n_index acc) (map n_index blocks)) (snd it)))
           (items acc @ concat (map items blocks))"
  using assms
proof (induction blocks arbitrary: acc)
  case Nil
  then have "map (\<lambda>it. (fst it, pad (n_index acc) (snd it))) (items acc) = items acc"
    by (simp add: pad_long map_idI)
  then show ?case by simp
next
  case (Cons b blocks)
  let ?n1 = "max (n_index acc) (n_index b)"
  let ?N = "foldl max ?n1 (map n_index blocks)"
  have n1: "n_index (pd_concat acc b) = ?n1"
    by (simp add: pd_concat_def Let_def)
  have i1: "items (pd_concat acc b) = map (\<lambda>it. (fst it, pad ?n1 (snd it))) (items acc @ items b)"
    by (simp add: pd_concat_def Let_def)
  have inv: "\<forall>it\<in>set (items (pd_concat acc b)). n_index (pd_concat acc b) \<le> length (snd it)"
    unfolding n1 i1 by (auto simp: pad_def)
  have le: "?n1 \<le> ?N" by (rule foldl_max_ge)
  have pp: "map (\<lambda>it. (fst it, pad ?N (snd it))) (map (\<lambda>it. (fst it, pad ?n1 (snd it))) xs)
      = map (\<lambda>it. (fst it, pad ?N (snd it))) xs" for xs :: "(string \<times> cell list) list"
    by (simp add: pad_pad[OF le])
  from Cons.IH[OF inv] show ?case
    unfolding n1 i1 by (simp add: pp del: map_map)
qed

lemma assembled_frame:
  "n_index (foldl pd_concat empty_frame blocks) = n_rows blocks
   \<and> columns (foldl pd_concat empty_frame blocks) = concat (map columns blocks)
   \<and> map snd (items (foldl pd_concat empty_frame blocks))
       = map (pad (n_rows blocks)) (concat (map (\<lambda>b. map snd (items b)) blocks))"
proof -
  have "\<forall>it\<in>set (items empty_frame). n_index empty_frame \<le> length (snd it)"
    by (simp add: empty_frame_def)
  from foldl_pd_concat[OF this, of blocks]
  have n: "n_index (foldl pd_concat empty_frame blocks) = n_rows blocks"
    and i: "items (foldl pd_concat empty_frame blocks)
       = map (\<lambda>it. (fst it, pad (n_rows blocks) (snd it))) (concat (map items blocks))"
    by (simp_all add: empty_frame_def n_rows_def)
  have "map fst (items (foldl pd_concat empty_frame blocks)) = concat (map columns blocks)"
    unfolding i by (simp add: map_concat comp_def columns_def[abs_def])
  moreover have "map snd (items (foldl pd_concat empty_frame blocks))
       = map (pad (n_rows blocks)) (concat (map (\<lambda>b. map snd (items b)) blocks))"
    unfolding i by (simp add: map_concat comp_def)
  ultimately show ?thesis using n by (simp add: columns_def)
qed

lemma confounds_to_ndarray_Inr:
  "confounds_to_ndarray E confounds demean = Inr (matrix, labels) \<longleftrightarrow>
   2 \<le> n_index confounds \<and> labels = columns confounds
   \<and> (if demean
       then sk_scale E True False
              \<lparr>shape0 = n_index confounds, cols = map backfill (map snd (items confounds))\<rparr>
            = Inr matrix
       else matrix = \<lparr>shape0 = n_index confounds, cols = map backfill (map snd (items confounds))\<rparr>)"
  by (auto simp: confounds_to_ndarray_def Let_def to_values_def and_then_Inr_iff)

lemma assembled_to_ndarray:
  "confounds_to_ndarray E (foldl pd_concat empty_frame blocks) demean = Inr (matrix, labels) \<longleftrightarrow>
   2 \<le> n_rows blocks \<and> labels = concat (map columns blocks)
   \<and> (if demean then sk_scale E True False (stacked blocks) = Inr matrix
       else matrix = stacked blocks)"
  unfolding confounds_to_ndarray_Inr
  by (simp add: assembled_frame stacked_def comp_def)

lemma load_single_Inr:
  "load_single E self src = Inr (matrix, labels) \<longleftrightarrow>
   (\<exists>confounds_raw confounds_json blocks.
       read_confounds E src = Inr (confounds_raw, confounds_json)
     \<and> map (load_category E self confounds_raw confounds_json) (active_categories self)
         = map Inr blocks
     \<and> 2 \<le> n_rows blocks
     \<and> labels = concat (map columns blocks)
     \<and> (if self_demean self then sk_scale E True False (stacked blocks) = Inr matrix
         else matrix = stacked blocks))"
proof (cases "read_confounds E src")
  case (Inl e)
  then show ?thesis by (simp add: load_single_run_blocks)
next
  case (Inr r)
  obtain raw cj where r: "r = (raw, cj)" by (cases r)
  have "load_single E self src = Inr (matrix, labels) \<longleftrightarrow>
      (\<exists>confounds. run_blocks empty_frame
                 (map (\<lambda>category. (category \<in> set (self_strategy self),
                                    load_category E self raw cj category))
                      category_order) = Inr confounds
         \<and> confounds_to_ndarray E confounds (self_demean self) = Inr (matrix, labels))"
    by (simp add: load_single_run_blocks Inr r and_then_Inr_iff)
  also have "\<dots> \<longleftrightarrow> (\<exists>blocks.
       map (load_category E self raw cj) (active_categories self) = map Inr blocks
     \<and> confounds_to_ndarray E (foldl pd_concat empty_frame blocks) (self_demean self)
         = Inr (matrix, labels))"
    unfolding run_blocks_Inr steps_active active_categories_def by blast
  also have "\<dots> \<longleftrightarrow> (\<exists>blocks.
       map (load_category E self raw cj) (active_categories self) = map Inr blocks
     \<and> 2 \<le> n_rows blocks
     \<and> labels = concat (map columns blocks)
     \<and> (if self_demean self then sk_scale E True False (stacked blocks) = Inr matrix
         else matrix = stacked blocks))"
    unfolding assembled_to_ndarray by simp
  finally show ?thesis
    by (simp add: Inr r)
qed

lemma length_stacked: "length (cols (stacked blocks)) = length (concat (map columns blocks))"
  by (simp add: stacked_def columns_def[abs_def] length_concat comp_def)

lemma count_labels:
  "length (concat (map columns blocks)) = sum_list (map (\<lambda>b. length (items b)) blocks)"
  by (simp add: columns_def[abs_def] length_concat comp_def)

text \<open>
  C4. \<^verbatim>\<open>_load_single\<close> returns a matrix and labels exactly when the input is read,
  the loader of every category of the strategy, taken in the order motion, censoring,
  high_pass, wm_csf, global, compcor, ica_aroma, returns its block, the assembled frame has
  at least the two rows the backfill reads, and the demeaning (if asked for) returns. The
  labels are then the blocks' labels concatenated in that order, their number is the sum
  of the blocks' column counts, and the matrix is the blocks' columns side by side in the
  same order (after filling and backfill, and after the library's demeaning if asked for):
  it has as many columns as there are labels, provided the library's standardisation keeps
  the number of columns.
\<close>

theorem C4_assembly_order:
  "(load_single E self src = Inr (matrix, labels) \<longleftrightarrow>
      (\<exists>confounds_raw confounds_json blocks.
          read_confounds E src = Inr (confounds_raw, confounds_json)
        \<and> map (load_category E self confounds_raw confounds_json) (active_categories self)
            = map Inr blocks
        \<and> 2 \<le> n_rows blocks
        \<and> labels = concat (map columns blocks)
        \<and> (if self_demean self then sk_scale E True False (stacked blocks) = Inr matrix
            else matrix = stacked blocks)))
   \<and> (load_single E self src = Inr (matrix, labels) \<longrightarrow>
      (\<exists>confounds_raw confounds_json blocks.
          read_confounds E src = Inr (confounds_raw, confounds_json)
        \<and> map (load_category E self confounds_raw confounds_json) (active_categories self)
            = map Inr blocks
        \<and> labels = concat (map columns blocks)
        \<and> length labels = sum_list (map (\<lambda>b. length (items b)) blocks)
        \<and> (keeps_columns E \<longrightarrow> length (cols matrix) = length labels)))"
proof (intro conjI impI)
  show "load_single E self src = Inr (matrix, labels) \<longleftrightarrow>
      (\<exists>confounds_raw confounds_json blocks.
          read_confounds E src = Inr (confounds_raw, confounds_json)
        \<and> map (load_category E self confounds_raw confounds_json) (active_categories self)
            = map Inr blocks
        \<and> 2 \<le> n_rows blocks
        \<and> labels = concat (map columns blocks)
        \<and> (if self_demean self then sk_scale E True False (stacked blocks) = Inr matrix
            else matrix = stacked blocks))"
    by (rule load_single_Inr)
next
  assume "load_single E self src = Inr (matrix, labels)"
  then obtain confounds_raw confounds_json blocks where
    rd: "read_confounds E src = Inr (confounds_raw, confounds_json)"
    and bl: "map (load_category E self confounds_raw confounds_json) (active_categories self)
            = map Inr blocks"
    and lb: "labels = concat (map columns blocks)"
    and mx: "if self_demean self then sk_scale E True False (stacked blocks) = Inr matrix
            else matrix = stacked blocks"
    unfolding load_single_Inr by blast
  have cnt: "length labels = sum_list (map (\<lambda>b. length (items b)) blocks)"
    unfolding lb by (rule count_labels)
  have "length (cols matrix) = length labels" if "keeps_columns E"
  proof (cases "self_demean self")
    case True
    with mx have "sk_scale E True False (stacked blocks) = Inr matrix" by simp
    with that have "length (cols matrix) = length (cols (stacked blocks))"
      unfolding keeps_columns_def by blast
    then show ?thesis by (simp add: length_stacked lb)
  next
    case False
    with mx show ?thesis by (simp add: length_stacked lb)
  qed
  with rd bl lb cnt
  show "\<exists>confounds_raw confounds_json blocks.
          read_confounds E src = Inr (confounds_raw, confounds_json)
        \<and> map (load_category E self confounds_raw confounds_json) (active_categories self)
            = map Inr blocks
        \<and> labels = concat (map columns blocks)
        \<and> length labels = sum_list (map (\<lambda>b. length (items b)) blocks)
        \<and> (keeps_columns E \<longrightarrow> length (cols matrix) = length labels)"
    by blast
qed

theorem C4_witness:
  "active_categories (sample_obj [''compcor'', ''censoring'', ''motion''])
     = [''motion'', ''censoring'', ''compcor'']
   \<and> keeps_columns sample_env
   \<and> (\<exists>matrix. load_single sample_env (sample_obj [''compcor'', ''censoring'', ''motion''])
                  (Path sample_path)
        = Inr (matrix, [''trans_x'', ''trans_y'', ''trans_z'', ''rot_x'', ''rot_y'', ''rot_z'',
                        ''motion_outlier_0'', ''a_comp_cor_00''])
        \<and> length (cols matrix) = 8)"
proof -
  define matrix where "matrix =
    \<lparr>shape0 = 4,
     cols = [[Num 0, Num 1, Num 2, Num 1], [Num 0, Num 0, Num 1, Num 1],
             [Num 1, Num 0, Num 1, Num 0], [Num 0, Num 1, Num 0, Num 1],
             [Num 2, Num 1, Num 0, Num 1], [Num 1, Num 1, Num 0, Num 0],
             [Num 0, Num 0, Num 1, Num 0], [Num 1, Num 2, Num 1, Num 0]]\<rparr>"
  have act: "active_categories (sample_obj [''compcor'', ''censoring'', ''motion''])
      = [''motion'', ''censoring'', ''compcor'']"
    by code_simp
  have kc: "keeps_columns sample_env"
    by (auto simp: keeps_columns_def sample_env_def split: if_splits)
  have ld: "load_single sample_env (sample_obj [''compcor'', ''censoring'', ''motion''])
                  (Path sample_path)
        = Inr (matrix, [''trans_x'', ''trans_y'', ''trans_z'', ''rot_x'', ''rot_y'', ''rot_z'',
                        ''motion_outlier_0'', ''a_comp_cor_00''])"
    unfolding matrix_def by code_simp
  from C4_assembly_order[THEN conjunct2, rule_format, OF ld] kc
  have "length (cols matrix) = 8" by auto
  with act kc ld show ?thesis by blast
qed

section \<open>Optimized censoring: facts\<close>

lemma set_py_range: "set (py_range a b) = {x. a \<le> x \<and> x < b}"
  by (auto simp: py_range_def)

lemma sorted_py_range: "sorted (py_range a b)"
  by (simp add: py_range_def)

lemma fill_loop_append:
  "\<forall>ind\<in>set inds. ind + 1 < length fd \<Longrightarrow>
   fill_loop inds (fd @ extra)
     = fd @ extra @ concat (map (\<lambda>ind. py_range (fd ! ind + 1) (fd ! (ind + 1))) inds)"
proof (induction inds arbitrary: extra)
  case Nil
  then show ?case by simp
next
  case (Cons ind inds)
  then have lt: "ind < length fd" "ind + 1 < length fd" by auto
  have "fill_loop (ind # inds) (fd @ extra)
      = fill_loop inds (fd @ (extra @ py_range (fd ! ind + 1) (fd ! (ind + 1))))"
    using lt by (simp add: nth_append)
  also have "\<dots> = fd @ (extra @ py_range (fd ! ind + 1) (fd ! (ind + 1)))
        @ concat (map (\<lambda>ind. py_range (fd ! ind + 1) (fd ! (ind + 1))) inds)"
    using Cons.prems by (intro Cons.IH) simp
  finally show ?case by simp
qed

lemma length_np_diff: "length (np_diff a) = length a - 1"
  by (simp add: np_diff_def)

lemma nth_np_diff: "i + 1 < length a \<Longrightarrow> np_diff a ! i = a ! (i + 1) - a ! i"
proof -
  assume h: "i + 1 < length a"
  then have "i < length a - 1" by simp
  then have "[0..<length a - 1] ! i = i" by simp
  with h show ?thesis by (simp add: np_diff_def)
qed

lemma set_where_short:
  "set (where_short (np_diff L))
     = {i. i + 1 < length L \<and> 1 < L ! (i + 1) - L ! i \<and> L ! (i + 1) - L ! i < 6}"
  by (auto simp: where_short_def length_np_diff nth_np_diff)

lemma set_fill_loop:
  "set (fill_loop (where_short (np_diff L)) L) = set L \<union> short_gaps L"
proof -
  have "\<forall>ind\<in>set (where_short (np_diff L)). ind + 1 < length L"
    by (simp add: set_where_short)
  from fill_loop_append[OF this, of "[]"]
  have "set (fill_loop (where_short (np_diff L)) L)
      = set L \<union> (\<Union>ind\<in>set (where_short (np_diff L)). {x. L ! ind + 1 \<le> x \<and> x < L ! (ind + 1)})"
    by (simp add: set_py_range)
  also have "(\<Union>ind\<in>set (where_short (np_diff L)). {x. L ! ind + 1 \<le> x \<and> x < L ! (ind + 1)})
      = short_gaps L"
    unfolding set_where_short short_gaps_def by auto
  finally show ?thesis .
qed

text \<open>The array after the leading and the trailing step.\<close>

lemma sorted_lead:
  assumes "sorted fd" "fd \<noteq> []"
  shows "sorted (py_range 0 (hd fd) @ fd)"
proof -
  have "\<forall>x\<in>set (py_range 0 (hd fd)). \<forall>y\<in>set fd. x \<le> y"
  proof (intro ballI)
    fix x y assume "x \<in> set (py_range 0 (hd fd))" "y \<in> set fd"
    then have "x < hd fd" by (simp add: set_py_range)
    moreover have "hd fd \<le> y"
      using assms \<open>y \<in> set fd\<close> by (cases fd) auto
    ultimately show "x \<le> y" by simp
  qed
  then show ?thesis
    using assms by (simp add: sorted_append sorted_py_range)
qed

lemma sorted_trail:
  assumes "sorted fd1" "fd1 \<noteq> []"
  shows "sorted (fd1 @ py_range (last fd1) n)"
proof -
  have "\<forall>x\<in>set fd1. \<forall>y\<in>set (py_range (last fd1) n). x \<le> y"
  proof (intro ballI)
    fix x y assume "x \<in> set fd1" "y \<in> set (py_range (last fd1) n)"
    then have "last fd1 \<le> y" by (simp add: set_py_range)
    moreover have "x \<le> last fd1"
      using assms \<open>x \<in> set fd1\<close>
      by (metis in_set_conv_nth last_conv_nth sorted_nth_mono diff_less length_greater_0_conv less_Suc_eq_le Suc_pred' zero_less_one)
    ultimately show "x \<le> y" by simp
  qed
  then show ?thesis
    using assms by (simp add: sorted_append sorted_py_range)
qed

text \<open>Two entries of a sorted list with no entry strictly between them are neighbours.\<close>

lemma neighbours_in_sorted:
  assumes "sorted L" "a \<in> set L" "b \<in> set L" "a < b"
    and "\<forall>x\<in>set L. \<not> (a < x \<and> x < b)"
  shows "\<exists>i. i + 1 < length L \<and> L ! i = a \<and> L ! (i + 1) = b"
  using assms
proof (induction L)
  case Nil
  then show ?case by simp
next
  case (Cons x xs)
  have bx: "b \<in> set xs"
  proof -
    have "x \<le> a" using Cons.prems by auto
    with Cons.prems show ?thesis by auto
  qed
  then obtain y ys where xs: "xs = y # ys" by (cases xs) auto
  have srt: "sorted xs" using Cons.prems by simp
  have btw: "\<forall>x\<in>set xs. \<not> (a < x \<and> x < b)" using Cons.prems by simp
  show ?case
  proof (cases "a \<in> set xs")
    case True
    from Cons.IH[OF srt True bx \<open>a < b\<close> btw]
    obtain i where "i + 1 < length xs" "xs ! i = a" "xs ! (i + 1) = b" by blast
    then have "(i + 1) + 1 < length (x # xs) \<and> (x # xs) ! (i + 1) = a
               \<and> (x # xs) ! ((i + 1) + 1) = b"
      by simp
    then show ?thesis by blast
  next
    case False
    with Cons.prems have ax: "a = x" by auto
    have "y \<le> b" using srt bx xs by auto
    moreover have "a \<le> y" using Cons.prems ax xs by auto
    moreover have "y \<noteq> a" using False xs by auto
    moreover have "\<not> (a < y \<and> y < b)" using btw xs by auto
    ultimately have "y = b" by auto
    then have "0 + 1 < length (x # xs) \<and> (x # xs) ! 0 = a \<and> (x # xs) ! (0 + 1) = b"
      using ax xs by simp
    then show ?thesis by blast
  qed
qed

lemma short_gaps_up:
  assumes "a \<in> short_gaps L" "a + 1 \<notin> set L"
  shows "a + 1 \<in> short_gaps L"
proof -
  from assms(1) obtain i where i: "i + 1 < length L" "1 < L ! (i + 1) - L ! i"
    "L ! (i + 1) - L ! i < 6" "L ! i < a" "a < L ! (i + 1)"
    unfolding short_gaps_def by blast
  have "L ! (i + 1) \<in> set L" using i(1) by simp
  with assms(2) have "a + 1 \<noteq> L ! (i + 1)" by metis
  with i have "L ! i < a + 1 \<and> a + 1 < L ! (i + 1)" by linarith
  with i show ?thesis unfolding short_gaps_def by blast
qed

lemma short_gaps_down:
  assumes "b \<in> short_gaps L" "b - 1 \<notin> set L"
  shows "b - 1 \<in> short_gaps L"
proof -
  from assms(1) obtain i where i: "i + 1 < length L" "1 < L ! (i + 1) - L ! i"
    "L ! (i + 1) - L ! i < 6" "L ! i < b" "b < L ! (i + 1)"
    unfolding short_gaps_def by blast
  have "L ! i \<in> set L" using i(1) by simp
  with assms(2) have "b - 1 \<noteq> L ! i" by metis
  with i have "L ! i < b - 1 \<and> b - 1 < L ! (i + 1)" by linarith
  with i show ?thesis unfolding short_gaps_def by blast
qed

text \<open>
  In the filled set of a sorted list, two neighbours are next to each other or at least
  6 apart.
\<close>

lemma filled_neighbours:
  assumes "sorted L"
    and "a \<in> set L \<union> short_gaps L" "b \<in> set L \<union> short_gaps L" "a < b"
    and "\<forall>x\<in>set L \<union> short_gaps L. \<not> (a < x \<and> x < b)"
  shows "b - a = 1 \<or> 6 \<le> b - a"
proof (cases "b - a = 1")
  case True
  then show ?thesis by simp
next
  case False
  with assms(4) have far: "a < a + 1 \<and> a + 1 < b" "a < b - 1 \<and> b - 1 < b" by auto
  with assms(5) have up: "a + 1 \<notin> set L \<union> short_gaps L"
    and down: "b - 1 \<notin> set L \<union> short_gaps L" by blast+
  have aL: "a \<in> set L"
    using assms(2) up short_gaps_up[of a L] by blast
  have bL: "b \<in> set L"
    using assms(3) down short_gaps_down[of b L] by blast
  from neighbours_in_sorted[OF assms(1) aL bL assms(4)] assms(5)
  obtain i where i: "i + 1 < length L" "L ! i = a" "L ! (i + 1) = b" by blast
  have "\<not> (1 < b - a \<and> b - a < 6)"
  proof
    assume "1 < b - a \<and> b - a < 6"
    with i far have "a + 1 \<in> short_gaps L"
      unfolding short_gaps_def by blast
    with up show False by simp
  qed
  with far show ?thesis by linarith
qed

text \<open>The clean runs of a strictly increasing list lie between neighbours of its set.\<close>

lemma clean_runs_neighbours:
  assumes "sorted xs" "distinct xs" "r \<in> set (clean_runs xs)"
  shows "\<exists>a b. a \<in> set xs \<and> b \<in> set xs \<and> a < b \<and> r = b - a - 1
               \<and> (\<forall>x\<in>set xs. \<not> (a < x \<and> x < b))"
  using assms
proof (induction xs rule: clean_runs.induct)
  case (1 a b rest)
  have ab: "a < b" using "1.prems" by auto
  have "\<forall>x\<in>set rest. b \<le> x" "b \<notin> set rest" using "1.prems" by auto
  then have rest: "\<forall>x\<in>set rest. b < x" by (metis order_le_less)
  show ?case
  proof (cases "r = b - a - 1")
    case True
    have "\<forall>x\<in>set (a # b # rest). \<not> (a < x \<and> x < b)"
      using rest by auto
    with True ab show ?thesis by (intro exI[of _ a] exI[of _ b]) simp
  next
    case False
    with "1.prems" have r: "r \<in> set (clean_runs (b # rest))" by simp
    have "sorted (b # rest)" "distinct (b # rest)" using "1.prems" by auto
    from "1.IH"[OF this r] obtain a' b' where
      h: "a' \<in> set (b # rest)" "b' \<in> set (b # rest)" "a' < b'" "r = b' - a' - 1"
         "\<forall>x\<in>set (b # rest). \<not> (a' < x \<and> x < b')" by blast
    have "a < a'" using h(1) ab rest by auto
    then have "\<forall>x\<in>set (a # b # rest). \<not> (a' < x \<and> x < b')"
      using h(5) by auto
    with h show ?thesis by (intro exI[of _ a'] exI[of _ b']) simp
  qed
qed simp_all

lemma optimize_censoring_extended:
  "fd \<noteq> [] \<Longrightarrow>
   optimize_censoring fd n
     = Inr (np_sort (np_unique (fill_loop (where_short (np_diff (extended fd n))) (extended fd n))))"
  by (simp add: optimize_censoring_def extended_def Let_def)

lemma extended_parts:
  assumes "fd \<noteq> []"
  shows "\<exists>lead trail. extended fd n = lead @ fd @ trail
           \<and> (\<forall>x\<in>set lead. x < hd fd) \<and> (\<forall>x\<in>set trail. last fd \<le> x)"
proof -
  define lead where "lead = (if hd fd < 5 then py_range 0 (hd fd) else [])"
  define trail where "trail = (if n - (last fd + 1) < 5 then py_range (last fd) n else [])"
  have "extended fd n = lead @ fd @ trail"
    using assms by (simp add: extended_def Let_def lead_def trail_def)
  moreover have "\<forall>x\<in>set lead. x < hd fd"
    by (simp add: lead_def set_py_range)
  moreover have "\<forall>x\<in>set trail. last fd \<le> x"
    by (simp add: trail_def set_py_range)
  ultimately show ?thesis by blast
qed

lemma sorted_extended:
  assumes "sorted fd" "fd \<noteq> []"
  shows "sorted (extended fd n)"
proof -
  define fd1 where "fd1 = (if hd fd < 5 then py_range 0 (hd fd) @ fd else fd)"
  have s1: "sorted fd1" and n1: "fd1 \<noteq> []"
    using assms sorted_lead[OF assms] by (simp_all add: fd1_def)
  have "extended fd n = (if n - (last fd1 + 1) < 5 then fd1 @ py_range (last fd1) n else fd1)"
    by (simp add: extended_def fd1_def Let_def)
  then show ?thesis
    using s1 sorted_trail[OF s1 n1] by simp
qed

lemma sorted_split_at:
  assumes "sorted fd" "i + 1 < length fd" "y \<in> set fd"
  shows "y \<le> fd ! i \<or> fd ! (i + 1) \<le> y"
proof -
  from assms(3) obtain k where k: "k < length fd" "fd ! k = y"
    by (auto simp: in_set_conv_nth)
  show ?thesis
  proof (cases "k \<le> i")
    case True
    then have "fd ! k \<le> fd ! i" using assms by (intro sorted_nth_mono) simp_all
    with k show ?thesis by simp
  next
    case False
    then have "fd ! (i + 1) \<le> fd ! k" using assms k by (intro sorted_nth_mono) simp_all
    with k show ?thesis by simp
  qed
qed

lemma hd_le_nth: "sorted fd \<Longrightarrow> i < length fd \<Longrightarrow> hd fd \<le> fd ! i"
  by (cases fd) (auto simp: nth_Cons')

lemma nth_le_last: "sorted fd \<Longrightarrow> i < length fd \<Longrightarrow> fd ! i \<le> last fd"
proof -
  assume h: "sorted fd" "i < length fd"
  then have "fd \<noteq> []" by auto
  then have "last fd = fd ! (length fd - 1)" by (rule last_conv_nth)
  moreover have "fd ! i \<le> fd ! (length fd - 1)"
    using h by (intro sorted_nth_mono) simp_all
  ultimately show ?thesis by simp
qed

text \<open>Between two neighbours of the input, the extended array has no entry.\<close>

lemma extended_between:
  assumes "sorted fd" "i + 1 < length fd" "y \<in> set (extended fd n)"
  shows "y \<le> fd ! i \<or> fd ! (i + 1) \<le> y"
proof -
  have ne: "fd \<noteq> []" using assms(2) by auto
  from extended_parts[OF ne, of n] obtain lead trail where
    p: "extended fd n = lead @ fd @ trail" "\<forall>x\<in>set lead. x < hd fd"
       "\<forall>x\<in>set trail. last fd \<le> x" by blast
  from assms(3) p(1) consider "y \<in> set lead" | "y \<in> set fd" | "y \<in> set trail" by auto
  then show ?thesis
  proof cases
    case 1
    with p(2) have "y < hd fd" by blast
    moreover have "hd fd \<le> fd ! i" using assms by (intro hd_le_nth) simp_all
    ultimately show ?thesis by simp
  next
    case 2
    then show ?thesis by (rule sorted_split_at[OF assms(1,2)])
  next
    case 3
    with p(3) have "last fd \<le> y" by blast
    moreover have "fd ! (i + 1) \<le> last fd" using assms by (intro nth_le_last) simp_all
    ultimately show ?thesis by simp
  qed
qed

lemma extended_neighbours:
  assumes "fd \<noteq> []" "i + 1 < length fd"
  shows "\<exists>j. j + 1 < length (extended fd n) \<and> extended fd n ! j = fd ! i
            \<and> extended fd n ! (j + 1) = fd ! (i + 1)"
proof -
  from extended_parts[OF assms(1), of n] obtain lead trail where
    p: "extended fd n = lead @ fd @ trail" by blast
  have "length lead + i + 1 < length (extended fd n)"
    using assms(2) by (simp add: p)
  moreover have "extended fd n ! (length lead + i) = fd ! i"
    using assms(2) by (simp add: p nth_append)
  moreover have "extended fd n ! (length lead + i + 1) = fd ! (i + 1)"
    using assms(2) by (simp add: p nth_append)
  ultimately show ?thesis by blast
qed

lemma set_extended: "fd \<noteq> [] \<Longrightarrow> set fd \<subseteq> set (extended fd n)"
  using extended_parts[of fd n] by auto

lemma set_np_sort_unique [simp]: "set (np_sort (np_unique a)) = set a"
  by (simp add: np_sort_def np_unique_def)

lemma sorted_np_sort_unique: "sorted (np_sort (np_unique a))"
  by (simp add: np_sort_def)

lemma distinct_np_sort_unique: "distinct (np_sort (np_unique a))"
  by (simp add: np_sort_def np_unique_def)

text \<open>
  C3 as stated: no interior clean run shorter than 6 is left. Two outliers at 10 and 16
  in a run of 30 scans enclose the 5 clean timepoints 11 to 15, and the code leaves them.
\<close>

theorem C3_run_of_five_counterexample:
  "optimize_censoring [10, 16] 30 = Inr [10, 16]
   \<and> clean_runs [10, 16] = [5]
   \<and> \<not> (\<forall>r\<in>set (clean_runs [10, 16]). r = 0 \<or> 6 \<le> r)"
proof -
  have "optimize_censoring [10, 16] 30 = Inr [10, 16]"
    by code_simp
  then show ?thesis by simp
qed

text \<open>
  C3, as amended. On a non-empty sorted array of outlier indices \<^verbatim>\<open>_optimize_censoring\<close>
  returns a strictly increasing array holding every input index, in which every interior
  clean run between two consecutive outliers is empty or at least 5 timepoints long:
  a clean run of 4 or fewer timepoints between two consecutive input outliers is absorbed
  whole, and a clean run of 5 or more is left as it is.
\<close>

theorem C3_optimized_censoring_runs:
  assumes "fd_outliers \<noteq> []" and "sorted fd_outliers"
  shows "\<exists>out. optimize_censoring fd_outliers n_scans = Inr out
           \<and> sorted out \<and> distinct out \<and> set fd_outliers \<subseteq> set out
           \<and> (\<forall>r\<in>set (clean_runs out). r = 0 \<or> 5 \<le> r)
           \<and> (\<forall>i. i + 1 < length fd_outliers \<longrightarrow>
                (fd_outliers ! (i + 1) - fd_outliers ! i - 1 \<le> 4 \<longrightarrow>
                   (\<forall>x. fd_outliers ! i < x \<and> x < fd_outliers ! (i + 1) \<longrightarrow> x \<in> set out))
              \<and> (5 \<le> fd_outliers ! (i + 1) - fd_outliers ! i - 1 \<longrightarrow>
                   (\<forall>x. fd_outliers ! i < x \<and> x < fd_outliers ! (i + 1) \<longrightarrow> x \<notin> set out)))"
proof -
  define L where "L = extended fd_outliers n_scans"
  define out where "out = np_sort (np_unique (fill_loop (where_short (np_diff L)) L))"
  have res: "optimize_censoring fd_outliers n_scans = Inr out"
    unfolding out_def L_def by (rule optimize_censoring_extended[OF assms(1)])
  have sL: "sorted L"
    unfolding L_def by (rule sorted_extended[OF assms(2,1)])
  have so: "set out = set L \<union> short_gaps L"
    by (simp add: out_def set_fill_loop)
  have srt: "sorted out" unfolding out_def by (rule sorted_np_sort_unique)
  have dst: "distinct out" unfolding out_def by (rule distinct_np_sort_unique)
  have sub: "set fd_outliers \<subseteq> set out"
    using set_extended[OF assms(1), of n_scans] by (auto simp: so L_def)
  have runs: "\<forall>r\<in>set (clean_runs out). r = 0 \<or> 5 \<le> r"
  proof
    fix r assume "r \<in> set (clean_runs out)"
    from clean_runs_neighbours[OF srt dst this] obtain a b where
      h: "a \<in> set out" "b \<in> set out" "a < b" "r = b - a - 1"
         "\<forall>x\<in>set out. \<not> (a < x \<and> x < b)" by blast
    from filled_neighbours[OF sL, of a b] h have "b - a = 1 \<or> 6 \<le> b - a"
      by (simp add: so)
    with h(4) show "r = 0 \<or> 5 \<le> r" by linarith
  qed
  have gaps: "(fd_outliers ! (i + 1) - fd_outliers ! i - 1 \<le> 4 \<longrightarrow>
                   (\<forall>x. fd_outliers ! i < x \<and> x < fd_outliers ! (i + 1) \<longrightarrow> x \<in> set out))
              \<and> (5 \<le> fd_outliers ! (i + 1) - fd_outliers ! i - 1 \<longrightarrow>
                   (\<forall>x. fd_outliers ! i < x \<and> x < fd_outliers ! (i + 1) \<longrightarrow> x \<notin> set out))"
    if i: "i + 1 < length fd_outliers" for i
  proof (intro conjI impI allI)
    fix x
    assume short: "fd_outliers ! (i + 1) - fd_outliers ! i - 1 \<le> 4"
      and x: "fd_outliers ! i < x \<and> x < fd_outliers ! (i + 1)"
    from extended_neighbours[OF assms(1) i, of n_scans] obtain j where
      j: "j + 1 < length L" "L ! j = fd_outliers ! i" "L ! (j + 1) = fd_outliers ! (i + 1)"
      unfolding L_def by blast
    have "1 < L ! (j + 1) - L ! j \<and> L ! (j + 1) - L ! j < 6 \<and> L ! j < x \<and> x < L ! (j + 1)"
      using short x j by linarith
    with j(1) have "x \<in> short_gaps L" unfolding short_gaps_def by blast
    then show "x \<in> set out" by (simp add: so)
  next
    fix x
    assume long: "5 \<le> fd_outliers ! (i + 1) - fd_outliers ! i - 1"
      and x: "fd_outliers ! i < x \<and> x < fd_outliers ! (i + 1)"
    have btw: "y \<le> fd_outliers ! i \<or> fd_outliers ! (i + 1) \<le> y" if "y \<in> set L" for y
      using that extended_between[OF assms(2) i, of y n_scans] by (simp add: L_def)
    show "x \<notin> set out"
    proof
      assume "x \<in> set out"
      then consider "x \<in> set L" | "x \<in> short_gaps L" by (auto simp: so)
      then show False
      proof cases
        case 1
        from btw[OF this] x show False by linarith
      next
        case 2
        then obtain j where j: "j + 1 < length L" "L ! (j + 1) - L ! j < 6"
          "L ! j < x" "x < L ! (j + 1)"
          unfolding short_gaps_def by blast
        have "L ! j \<in> set L" "L ! (j + 1) \<in> set L" using j(1) by simp_all
        from btw[OF this(1)] btw[OF this(2)] x j(3,4)
        have "L ! j \<le> fd_outliers ! i" "fd_outliers ! (i + 1) \<le> L ! (j + 1)" by linarith+
        with long j(2) show False by linarith
      qed
    qed
  qed
  from res srt dst sub runs gaps show ?thesis by blast
qed

theorem C3_witness:
  "optimize_censoring [2, 10, 16, 19] 22 = Inr [0, 1, 2, 10, 16, 17, 18, 19, 20, 21]
   \<and> clean_runs [0, 1, 2, 10, 16, 17, 18, 19, 20, 21] = [0, 0, 7, 5, 0, 0, 0, 0, 0]
   \<and> (17::int) \<in> set [0, 1, 2, 10, 16, 17, 18, 19, 20, 21]
   \<and> (11::int) \<notin> set [0, 1, 2, 10, 16, 17, 18, 19, 20, 21]"
proof -
  have ne: "[2, 10, 16, 19] \<noteq> ([] :: int list)" by simp
  have st: "sorted [2, 10, 16, 19 :: int]" by simp
  let ?fd = "[2, 10, 16, 19] :: int list"
  from C3_optimized_censoring_runs[OF ne st, of 22] obtain out where
    out: "optimize_censoring ?fd 22 = Inr out"
    and gaps: "\<forall>i. i + 1 < length ?fd \<longrightarrow>
                (?fd ! (i + 1) - ?fd ! i - 1 \<le> 4 \<longrightarrow>
                   (\<forall>x. ?fd ! i < x \<and> x < ?fd ! (i + 1) \<longrightarrow> x \<in> set out))
              \<and> (5 \<le> ?fd ! (i + 1) - ?fd ! i - 1 \<longrightarrow>
                   (\<forall>x. ?fd ! i < x \<and> x < ?fd ! (i + 1) \<longrightarrow> x \<notin> set out))"
    by blast
  have ev: "optimize_censoring [2, 10, 16, 19] 22 = Inr [0, 1, 2, 10, 16, 17, 18, 19, 20, 21]"
    by code_simp
  with out have o: "out = [0, 1, 2, 10, 16, 17, 18, 19, 20, 21]" by simp
  from gaps[rule_format, of 2] have "17 \<in> set out" by simp
  moreover from gaps[rule_format, of 1] have "11 \<notin> set out" by simp
  ultimately show ?thesis using ev unfolding o by simp
qed

end
